theory Spec2Isabelle
  imports Complex_Main
begin

section \<open>Python errors\<close>

text \<open>
  The exceptions that \<open>hypia/functionals.py\<close> can raise, as values. \<open>IndexError\<close> is
  the one the source raises itself (in \<open>crop\<close>); the others are raised by the Python
  interpreter or by NumPy while a function of the source runs. \<open>LibraryError\<close> stands
  for any exception raised inside SciPy or scikit-image.
\<close>

datatype error =
    TypeError
  | AttributeError
  | UnboundLocalError
  | AssertionError
  | IndexError
  | ValueError
  | LibraryError

section \<open>Images: three-dimensional arrays\<close>

text \<open>
  An image is a NumPy array with three axes. The model keeps the shape next to the
  nested element lists, so that an axis of extent zero still has a shape.
  \<open>wf_array\<close> is the invariant every NumPy array has: the nesting agrees with the shape.
\<close>

record 'a ndarray =
  shape :: "nat \<times> nat \<times> nat"
  elems :: "'a list list list"

definition wf_array :: "'a ndarray \<Rightarrow> bool" where
  "wf_array a =
     (case shape a of (d0, d1, d2) \<Rightarrow>
        length (elems a) = d0 \<and>
        list_all (\<lambda>p. length p = d1 \<and> list_all (\<lambda>r. length r = d2) p) (elems a))"

definition tabulate3 :: "nat \<Rightarrow> nat \<Rightarrow> nat \<Rightarrow> (nat \<Rightarrow> nat \<Rightarrow> nat \<Rightarrow> 'a) \<Rightarrow> 'a list list list" where
  "tabulate3 d0 d1 d2 f = map (\<lambda>i. map (\<lambda>j. map (\<lambda>k. f i j k) [0..<d2]) [0..<d1]) [0..<d0]"

text \<open>\<open>np.moveaxis(a, 0, -1)\<close>: the first axis becomes the last, \<open>out[i, j, k] = a[k, i, j]\<close>.\<close>

definition moveaxis_0_last :: "'a ndarray \<Rightarrow> 'a ndarray" where
  "moveaxis_0_last a =
     (case shape a of (d0, d1, d2) \<Rightarrow>
        \<lparr>shape = (d1, d2, d0),
         elems = tabulate3 d1 d2 d0 (\<lambda>i j k. elems a ! k ! i ! j)\<rparr>)"

text \<open>\<open>np.moveaxis(a, -1, 0)\<close>: the last axis becomes the first, \<open>out[k, i, j] = a[i, j, k]\<close>.\<close>

definition moveaxis_last_0 :: "'a ndarray \<Rightarrow> 'a ndarray" where
  "moveaxis_last_0 a =
     (case shape a of (d0, d1, d2) \<Rightarrow>
        \<lparr>shape = (d2, d0, d1),
         elems = tabulate3 d2 d0 d1 (\<lambda>k i j. elems a ! i ! j ! k)\<rparr>)"

text \<open>\<open>np.fliplr\<close> reverses axis 1, \<open>np.flipud\<close> reverses axis 0.\<close>

definition fliplr :: "'a ndarray \<Rightarrow> 'a ndarray" where
  "fliplr a = a\<lparr>elems := map rev (elems a)\<rparr>"

definition flipud :: "'a ndarray \<Rightarrow> 'a ndarray" where
  "flipud a = a\<lparr>elems := rev (elems a)\<rparr>"

subsection \<open>Slices\<close>

text \<open>
  A bound of a Python slice with step 1 on an axis of extent \<open>n\<close>: a negative bound
  counts from the end, and the result is clamped to \<open>0 .. n\<close>. A slice never raises.
\<close>

definition slice_bound :: "int \<Rightarrow> nat \<Rightarrow> nat" where
  "slice_bound i n =
     (let j = (if i < 0 then i + int n else i)
      in if j < 0 then 0 else if int n \<le> j then n else nat j)"

definition py_slice :: "int \<Rightarrow> int \<Rightarrow> 'a list \<Rightarrow> 'a list" where
  "py_slice start stop xs =
     (let lo = slice_bound start (length xs); hi = slice_bound stop (length xs)
      in take (hi - lo) (drop lo xs))"

text \<open>\<open>a[r0:r1, c0:c1]\<close>: a slice of the first two axes.\<close>

definition getitem_rows_cols :: "'a ndarray \<Rightarrow> int \<Rightarrow> int \<Rightarrow> int \<Rightarrow> int \<Rightarrow> 'a ndarray" where
  "getitem_rows_cols a r0 r1 c0 c1 =
     (case shape a of (d0, d1, d2) \<Rightarrow>
        \<lparr>shape = (slice_bound r1 d0 - slice_bound r0 d0, slice_bound c1 d1 - slice_bound c0 d1, d2),
         elems = map (py_slice c0 c1) (py_slice r0 r1 (elems a))\<rparr>)"

text \<open>\<open>a[:, r0:r1, c0:c1]\<close>: a slice of the last two axes, the one the specification
  compares \<open>crop\<close> with on a channel-first image.\<close>

definition getitem_all_rows_cols :: "'a ndarray \<Rightarrow> int \<Rightarrow> int \<Rightarrow> int \<Rightarrow> int \<Rightarrow> 'a ndarray" where
  "getitem_all_rows_cols a r0 r1 c0 c1 =
     (case shape a of (d0, d1, d2) \<Rightarrow>
        \<lparr>shape = (d0, slice_bound r1 d1 - slice_bound r0 d1, slice_bound c1 d2 - slice_bound c0 d2),
         elems = map (\<lambda>p. map (py_slice c0 c1) (py_slice r0 r1 p)) (elems a)\<rparr>)"

section \<open>The operations without library calls\<close>

text \<open>
  \<open>crop\<close>: the channel axis is moved last when \<open>channel_pos == "first"\<close>, the bounds are
  tested on the first two axes, the box is sliced out and the axis moved back. The
  corner \<open>tl\<close> of the source is the pair \<open>tl' = (tl[0], tl[1])\<close>.
\<close>

definition crop :: "'a ndarray \<Rightarrow> int \<times> int \<Rightarrow> int \<Rightarrow> int \<Rightarrow> string \<Rightarrow> error + 'a ndarray" where
  "crop img tl' height width channel_pos =
     (let img = (if channel_pos = ''first'' then moveaxis_0_last img else img)
      in if fst tl' + height > int (fst (shape img)) \<or>
            snd tl' + width > int (fst (snd (shape img)))
         then Inl IndexError
         else
           let cropped = getitem_rows_cols img (fst tl') (fst tl' + height) (snd tl') (snd tl' + width);
               cropped = (if channel_pos = ''first'' then moveaxis_last_0 cropped else cropped)
           in Inr cropped)"

definition hflip :: "'a ndarray \<Rightarrow> string \<Rightarrow> 'a ndarray" where
  "hflip img channel_pos =
     (let img = (if channel_pos = ''first'' then moveaxis_0_last img else img);
          flipped = fliplr img;
          flipped = (if channel_pos = ''first'' then moveaxis_last_0 flipped else flipped)
      in flipped)"

definition vflip :: "'a ndarray \<Rightarrow> string \<Rightarrow> 'a ndarray" where
  "vflip img channel_pos =
     (let img = (if channel_pos = ''first'' then moveaxis_0_last img else img);
          flipped = flipud img;
          flipped = (if channel_pos = ''first'' then moveaxis_last_0 flipped else flipped)
      in flipped)"


section \<open>The library the operations call\<close>

text \<open>
  NumPy's floating-point arithmetic, SciPy's \<open>ndimage\<close> and scikit-image's
  \<open>AffineTransform\<close> and \<open>warp\<close> are not part of the repository. The operations take
  them as a parameter \<open>L\<close>: one field for each library call or floating-point expression
  of the source. \<open>'a\<close> is the type of the samples, \<open>'f\<close> the type of floats. A call
  that can raise returns a sum.
\<close>

type_synonym 'f mat3 = "('f \<times> 'f \<times> 'f) \<times> ('f \<times> 'f \<times> 'f) \<times> ('f \<times> 'f \<times> 'f)"

record ('a, 'f) library =
  float_of_int :: "int \<Rightarrow> 'f"
  true_divide :: "nat \<Rightarrow> int \<Rightarrow> 'f"
  aa_sigma :: "'f \<Rightarrow> 'f"
  dst_corner :: "'f \<Rightarrow> int \<Rightarrow> int"
  fmul :: "'f \<Rightarrow> nat \<Rightarrow> 'f"
  fround :: "'f \<Rightarrow> 'f"
  rad2deg :: "'f \<Rightarrow> 'f"
  gaussian_filter :: "'a ndarray \<Rightarrow> 'f \<times> 'f \<times> 'f \<Rightarrow> error + 'a ndarray"
  estimate :: "(int \<times> int) list \<Rightarrow> (int \<times> int) list \<Rightarrow> 'f mat3"
  affine :: "('f \<times> 'f) option \<Rightarrow> 'f option \<Rightarrow> 'f option \<Rightarrow> ('f \<times> 'f) option \<Rightarrow> 'f mat3"
  matrix_inverse :: "'f mat3 \<Rightarrow> error + 'f mat3"
  warp :: "'a ndarray \<Rightarrow> 'f mat3 \<Rightarrow> (int \<times> int \<times> int) option \<Rightarrow> int \<Rightarrow> error + 'a ndarray"
  ndi_rotate :: "'a ndarray \<Rightarrow> 'f \<Rightarrow> bool \<Rightarrow> int \<Rightarrow> error + 'a ndarray"

text \<open>
  \<^item> \<open>true_divide n m\<close> is an element of \<open>np.asarray(input_shape) / np.asarray(output_shape)\<close>;
  \<^item> \<open>aa_sigma f\<close> is \<open>np.maximum(0, (f - 1) / 2)\<close>;
  \<^item> \<open>dst_corner f c\<close> is \<open>f * (c + 0.5) - 0.5\<close> stored into the integer array \<open>dst_corners\<close>;
  \<^item> \<open>fmul f n\<close> and \<open>fround\<close> are the product and \<open>np.round\<close> of \<open>rescale\<close>;
  \<^item> \<open>estimate src dst\<close> is the parameter matrix after \<open>AffineTransform().estimate(src, dst)\<close>;
  \<^item> \<open>affine scale rotation shear translation\<close> is the matrix of \<open>AffineTransform(...)\<close>,
    \<open>matrix_inverse\<close> the matrix of its \<open>.inverse\<close>;
  \<^item> \<open>warp img tform output_shape order\<close> is \<open>warp(img, tform, output_shape=..., order=...,
    preserve_range=True)\<close>, with \<open>None\<close> where the source passes no \<open>output_shape\<close>;
  \<^item> \<open>ndi_rotate img degrees reshape order\<close> is \<open>scipy.ndimage.rotate\<close>.
\<close>

section \<open>normalise\<close>

text \<open>
  \<open>mean\<close> and \<open>std\<close> are a scalar or a one-dimensional array. NumPy broadcasts a
  one-dimensional operand of length \<open>n\<close> along the last axis of the image: the lengths
  must agree, or one of them must be 1; otherwise the operation raises \<open>ValueError\<close>.
\<close>

datatype 'a operand = Scalar 'a | Vector "'a list"

definition broadcast :: "('a \<Rightarrow> 'a \<Rightarrow> 'a) \<Rightarrow> 'a ndarray \<Rightarrow> 'a operand \<Rightarrow> error + 'a ndarray" where
  "broadcast f img v =
     (case v of
        Scalar m \<Rightarrow> Inr (img\<lparr>elems := map (map (map (\<lambda>x. f x m))) (elems img)\<rparr>)
      | Vector ms \<Rightarrow>
          (case shape img of (d0, d1, d2) \<Rightarrow>
             if length ms = d2 then
               Inr (img\<lparr>elems := map (map (\<lambda>r. map2 f r ms)) (elems img)\<rparr>)
             else if length ms = 1 then
               Inr (img\<lparr>elems := map (map (map (\<lambda>x. f x (hd ms)))) (elems img)\<rparr>)
             else if d2 = 1 then
               Inr \<lparr>shape = (d0, d1, length ms),
                    elems = map (map (\<lambda>r. map (\<lambda>m. f (hd r) m) ms)) (elems img)\<rparr>
             else Inl ValueError))"

definition normalise :: "('a::{minus,inverse}) ndarray \<Rightarrow> 'a operand \<Rightarrow> 'a operand \<Rightarrow> error + 'a ndarray" where
  "normalise img mean std =
     (case broadcast (\<lambda>x m. x - m) img mean of
        Inl e \<Rightarrow> Inl e
      | Inr centred \<Rightarrow> broadcast (\<lambda>x s. x / s) centred std)"

text \<open>
  For stating what \<open>normalise\<close> computes: the entry of an operand that meets channel
  \<open>k\<close>, an operand being a scalar or a vector with one entry for each channel (the
  last axis), and an operand without a zero entry.
\<close>

definition operand_at :: "'a operand \<Rightarrow> nat \<Rightarrow> 'a" where
  "operand_at v k = (case v of Scalar m \<Rightarrow> m | Vector ms \<Rightarrow> ms ! k)"

definition per_channel :: "'a operand \<Rightarrow> nat \<Rightarrow> bool" where
  "per_channel v d2 = (case v of Scalar m \<Rightarrow> True | Vector ms \<Rightarrow> length ms = d2)"

definition nonzero :: "('a::zero) operand \<Rightarrow> bool" where
  "nonzero v = (case v of Scalar s \<Rightarrow> s \<noteq> 0 | Vector ss \<Rightarrow> list_all (\<lambda>s. s \<noteq> 0) ss)"

section \<open>resize and rescale\<close>

text \<open>
  The \<open>size\<close> argument of \<open>resize\<close>, by its Python type: an \<open>int\<close>, a \<open>tuple\<close>, a \<open>list\<close>,
  or a NumPy array (what \<open>rescale\<close> passes).
\<close>

datatype 'f size_arg = SizeInt int | SizeTuple "int list" | SizeList "int list" | SizeArray "'f list"

text \<open>
  Lines 54 to 59 of \<open>functionals.py\<close>. The test \<open>type(size) == (tuple or list)\<close> compares
  with \<open>tuple\<close>, the value of \<open>tuple or list\<close>. For a tuple of two elements the source
  reads \<open>img.output_shape\<close>, an attribute that arrays do not have. When no branch is
  taken \<open>output_shape\<close> stays unbound and the next statement, the \<open>assert\<close>, raises.
\<close>

fun output_shape_of :: "'a ndarray \<Rightarrow> 'f size_arg \<Rightarrow> error + int \<times> int \<times> int" where
  "output_shape_of img (SizeInt n) = Inr (n, n, int (snd (snd (shape img))))"
| "output_shape_of img (SizeTuple [a, b]) = Inl AttributeError"
| "output_shape_of img (SizeTuple [a, b, c]) = Inr (a, b, c)"
| "output_shape_of img (SizeTuple xs) = Inl UnboundLocalError"
| "output_shape_of img (SizeList xs) = Inl UnboundLocalError"
| "output_shape_of img (SizeArray fs) = Inl UnboundLocalError"

definition resize ::
  "('a, 'f) library \<Rightarrow> 'a ndarray \<Rightarrow> 'f size_arg \<Rightarrow> int \<Rightarrow> bool \<Rightarrow> string \<Rightarrow> error + 'a ndarray" where
  "resize L img size' interpolation_order anti_aliasing channel_pos =
     (let img = (if channel_pos = ''first'' then moveaxis_0_last img else img);
          input_shape = shape img
      in case output_shape_of img size' of
           Inl e \<Rightarrow> Inl e
         | Inr output_shape \<Rightarrow>
             (case (input_shape, output_shape) of ((i0, i1, i2), (o0, o1, o2)) \<Rightarrow>
                if int i2 \<noteq> o2 then Inl AssertionError
                else
                  let factors = (true_divide L i0 o0, true_divide L i1 o1, true_divide L i2 o2)
                  in case (if anti_aliasing
                           then (case factors of (f0, f1, f2) \<Rightarrow>
                                   gaussian_filter L img (aa_sigma L f0, aa_sigma L f1, aa_sigma L f2))
                           else Inr img) of
                       Inl e \<Rightarrow> Inl e
                     | Inr img \<Rightarrow>
                         let src_corners = [(0, 0), (0, o0 - 1), (o1 - 1, o0 - 1)];
                             dst_corners =
                               map (\<lambda>(x, y). (dst_corner L (fst (snd factors)) x,
                                              dst_corner L (fst factors) y)) src_corners;
                             tform =
                               (case estimate L src_corners dst_corners of
                                  ((p00, p01, p02), (p10, p11, p12), bottom) \<Rightarrow>
                                    ((p00, float_of_int L 0, p02),
                                     (float_of_int L 0, p11, p12),
                                     (float_of_int L 0, float_of_int L 0, float_of_int L 1)))
                         in case warp L img tform (Some output_shape) interpolation_order of
                              Inl e \<Rightarrow> Inl e
                            | Inr out \<Rightarrow>
                                Inr (if channel_pos = ''first'' then moveaxis_last_0 out else out)))"

text \<open>
  The \<open>scale\<close> argument of \<open>rescale\<close>, by its Python type: an \<open>int\<close>, a \<open>float\<close>, a
  \<open>tuple\<close>, a \<open>list\<close>, or a one-dimensional NumPy array. \<open>input_shape\<close> is a tuple of two
  integers, so \<open>scale * input_shape\<close> repeats the tuple for an \<open>int\<close>, raises
  \<open>TypeError\<close> for a \<open>float\<close>, a \<open>tuple\<close> or a \<open>list\<close>, and is NumPy's broadcast product for
  an array.
\<close>

datatype 'f scale_arg =
    ScaleInt int
  | ScaleFloat 'f
  | ScaleTuple "'f list"
  | ScaleList "'f list"
  | ScaleArray "'f list"

datatype 'f product = ProdTuple "nat list" | ProdArray "'f list"

fun mul_shape :: "('a, 'f) library \<Rightarrow> 'f scale_arg \<Rightarrow> nat \<times> nat \<Rightarrow> error + 'f product" where
  "mul_shape L (ScaleInt n) (h, w) = Inr (ProdTuple (concat (replicate (nat n) [h, w])))"
| "mul_shape L (ScaleFloat f) (h, w) = Inl TypeError"
| "mul_shape L (ScaleTuple fs) (h, w) = Inl TypeError"
| "mul_shape L (ScaleList fs) (h, w) = Inl TypeError"
| "mul_shape L (ScaleArray [f]) (h, w) = Inr (ProdArray [fmul L f h, fmul L f w])"
| "mul_shape L (ScaleArray [fy, fx]) (h, w) = Inr (ProdArray [fmul L fy h, fmul L fx w])"
| "mul_shape L (ScaleArray fs) (h, w) = Inl ValueError"

fun np_round :: "('a, 'f) library \<Rightarrow> 'f product \<Rightarrow> 'f size_arg" where
  "np_round L (ProdTuple ns) = SizeArray (map (\<lambda>n. float_of_int L (int n)) ns)"
| "np_round L (ProdArray fs) = SizeArray (map (fround L) fs)"

definition rescale ::
  "('a, 'f) library \<Rightarrow> 'a ndarray \<Rightarrow> 'f scale_arg \<Rightarrow> int \<Rightarrow> bool \<Rightarrow> string \<Rightarrow> error + 'a ndarray" where
  "rescale L img scale interpolation_order anti_aliasing channel_pos =
     (let input_shape =
            (case shape img of (d0, d1, d2) \<Rightarrow>
               if channel_pos = ''first'' then (d1, d2) else (d0, d1))
      in case mul_shape L scale input_shape of
           Inl e \<Rightarrow> Inl e
         | Inr p \<Rightarrow>
             let size' = np_round L p
             in resize L img size' interpolation_order anti_aliasing channel_pos)"

section \<open>rotate, shear, affine\_transform\<close>

definition rotate_img ::
  "('a, 'f) library \<Rightarrow> 'a ndarray \<Rightarrow> 'f \<Rightarrow> bool \<Rightarrow> int \<Rightarrow> string \<Rightarrow> error + 'a ndarray" where
  "rotate_img L img angle reshape interpolation_order channel_pos =
     (let img = (if channel_pos = ''first'' then moveaxis_0_last img else img)
      in case ndi_rotate L img (rad2deg L angle) reshape interpolation_order of
           Inl e \<Rightarrow> Inl e
         | Inr rotated \<Rightarrow>
             Inr (if channel_pos = ''first'' then moveaxis_last_0 rotated else rotated))"

definition shear ::
  "('a, 'f) library \<Rightarrow> 'a ndarray \<Rightarrow> 'f \<Rightarrow> int \<Rightarrow> string \<Rightarrow> error + 'a ndarray" where
  "shear L img angle interpolation_order channel_pos =
     (let img = (if channel_pos = ''first'' then moveaxis_0_last img else img);
          tform = affine L None None (Some angle) None
      in case matrix_inverse L tform of
           Inl e \<Rightarrow> Inl e
         | Inr inverse_tform \<Rightarrow>
             (case warp L img inverse_tform None interpolation_order of
                Inl e \<Rightarrow> Inl e
              | Inr sheared \<Rightarrow>
                  Inr (if channel_pos = ''first'' then moveaxis_last_0 sheared else sheared)))"

definition affine_transform ::
  "('a, 'f) library \<Rightarrow> 'a ndarray \<Rightarrow> ('f \<times> 'f) option \<Rightarrow> 'f option \<Rightarrow> 'f option \<Rightarrow>
   ('f \<times> 'f) option \<Rightarrow> int \<Rightarrow> string \<Rightarrow> error + 'a ndarray" where
  "affine_transform L img scales rotation shearing translate interpolation_order channel_pos =
     (let img = (if channel_pos = ''first'' then moveaxis_0_last img else img);
          tform = affine L scales rotation shearing translate
      in case matrix_inverse L tform of
           Inl e \<Rightarrow> Inl e
         | Inr inverse_tform \<Rightarrow>
             (case warp L img inverse_tform None interpolation_order of
                Inl e \<Rightarrow> Inl e
              | Inr transformed \<Rightarrow>
                  Inr (if channel_pos = ''first'' then moveaxis_last_0 transformed else transformed)))"

section \<open>zoom and stretch\<close>

text \<open>
  \<open>img.shape\<close> as the tuple that \<open>zoom\<close> and \<open>stretch\<close> pass to \<open>resize\<close> as \<open>size\<close>.
\<close>

definition shape_tuple :: "'a ndarray \<Rightarrow> 'f size_arg" where
  "shape_tuple img = (case shape img of (d0, d1, d2) \<Rightarrow> SizeTuple [int d0, int d1, int d2])"

text \<open>
  \<open>**resize_kwargs\<close> of \<open>zoom\<close>: the two keyword arguments of \<open>resize\<close> that \<open>zoom\<close> does
  not pass itself, each absent or given. An absent one takes the default of \<open>resize\<close>:
  \<open>interpolation_order=3\<close>, \<open>anti_aliasing=False\<close>.
\<close>

record resize_kwargs =
  kw_interpolation_order :: "int option"
  kw_anti_aliasing :: "bool option"

definition zoom ::
  "('a, 'f) library \<Rightarrow> 'a ndarray \<Rightarrow> int \<times> int \<Rightarrow> int \<Rightarrow> int \<Rightarrow> string \<Rightarrow> resize_kwargs \<Rightarrow>
   error + 'a ndarray" where
  "zoom L img tl' height width channel_pos kwargs =
     (let img = (if channel_pos = ''first'' then moveaxis_0_last img else img)
      in case crop img tl' height width ''last'' of
           Inl e \<Rightarrow> Inl e
         | Inr zoomed \<Rightarrow>
             (case resize L zoomed (shape_tuple img)
                     (case kw_interpolation_order kwargs of None \<Rightarrow> 3 | Some n \<Rightarrow> n)
                     (case kw_anti_aliasing kwargs of None \<Rightarrow> False | Some b \<Rightarrow> b)
                     ''last'' of
                Inl e \<Rightarrow> Inl e
              | Inr zoomed \<Rightarrow>
                  Inr (if channel_pos = ''first'' then moveaxis_last_0 zoomed else zoomed)))"

definition stretch ::
  "('a, 'f) library \<Rightarrow> 'a ndarray \<Rightarrow> 'f \<Rightarrow> int \<Rightarrow> bool \<Rightarrow> string \<Rightarrow> error + 'a ndarray" where
  "stretch L img angle interpolation_order anti_aliasing channel_pos =
     (let img = (if channel_pos = ''first'' then moveaxis_0_last img else img)
      in case shear L img angle interpolation_order ''last'' of
           Inl e \<Rightarrow> Inl e
         | Inr stretched \<Rightarrow>
             (case resize L stretched (shape_tuple img) interpolation_order anti_aliasing ''last'' of
                Inl e \<Rightarrow> Inl e
              | Inr stretched \<Rightarrow>
                  Inr (if channel_pos = ''first'' then moveaxis_last_0 stretched else stretched)))"

section \<open>Layouts\<close>

text \<open>
  The data model of the specification: an image with \<open>rows\<close> rows, \<open>cols\<close> columns and
  \<open>chans\<close> channels has shape \<open>(chans, rows, cols)\<close> in channel-first layout and
  \<open>(rows, cols, chans)\<close> in channels-last layout; \<open>pixel\<close> is its sample at row \<open>y\<close>,
  column \<open>x\<close>, channel \<open>c\<close>. Every operation treats a \<open>channel_pos\<close> other than
  \<open>"first"\<close> as \<open>"last"\<close>.
\<close>

definition layout_shape :: "string \<Rightarrow> nat \<times> nat \<times> nat \<Rightarrow> nat \<times> nat \<times> nat" where
  "layout_shape channel_pos s =
     (case s of (rows, cols, chans) \<Rightarrow>
        if channel_pos = ''first'' then (chans, rows, cols) else (rows, cols, chans))"

definition pixel :: "string \<Rightarrow> 'a ndarray \<Rightarrow> nat \<Rightarrow> nat \<Rightarrow> nat \<Rightarrow> 'a" where
  "pixel channel_pos a y x c =
     (if channel_pos = ''first'' then elems a ! c ! y ! x else elems a ! y ! x ! c)"

text \<open>
  The adapter of the specification: \<open>to_canonical\<close> is the statement
  \<open>if channel_pos == "first": img = np.moveaxis(img, 0, -1)\<close> that opens every operation,
  \<open>from_canonical\<close> the one that closes it.
\<close>

definition to_canonical :: "string \<Rightarrow> 'a ndarray \<Rightarrow> 'a ndarray" where
  "to_canonical channel_pos img = (if channel_pos = ''first'' then moveaxis_0_last img else img)"

definition from_canonical :: "string \<Rightarrow> 'a ndarray \<Rightarrow> 'a ndarray" where
  "from_canonical channel_pos img = (if channel_pos = ''first'' then moveaxis_last_0 img else img)"

text \<open>
  What the documentation of the libraries says about shapes: \<open>warp\<close> returns an array of
  the \<open>output_shape\<close> it is given, and of the shape of its input when it is given none;
  \<open>scipy.ndimage.rotate\<close> rotates in the plane of the first two axes, so it keeps the
  extent of the last axis, and with \<open>reshape=False\<close> the whole shape.
\<close>

definition library_shapes :: "('a, 'f) library \<Rightarrow> bool" where
  "library_shapes L =
     ((\<forall>a t o0 o1 o2 n r. warp L a t (Some (o0, o1, o2)) n = Inr r \<longrightarrow>
          shape r = (nat o0, nat o1, nat o2)) \<and>
      (\<forall>a t n r. warp L a t None n = Inr r \<longrightarrow> shape r = shape a) \<and>
      (\<forall>a d re n r. ndi_rotate L a d re n = Inr r \<longrightarrow>
          snd (snd (shape r)) = snd (snd (shape a)) \<and> (\<not> re \<longrightarrow> shape r = shape a)))"

section \<open>erase: arrays as views of buffers\<close>

text \<open>
  \<open>erase\<close> assigns to a slice of the array \<open>np.moveaxis\<close> returns. \<open>np.moveaxis\<close> returns a
  view: a new array object over the same buffer, with shape and strides permuted. So
  the assignment writes into the buffer of the caller's image. To state that, \<open>erase\<close>
  is modelled over a heap of buffers. A view names its buffer and gives the shape and
  the strides (counted in elements); element \<open>[i, j, k]\<close> of the view is the element of
  the buffer at \<open>offset\<close>.
\<close>

type_synonym 'a heap = "nat \<Rightarrow> 'a list"

record ndview =
  buffer :: nat
  vshape :: "nat \<times> nat \<times> nat"
  strides :: "nat \<times> nat \<times> nat"

definition offset :: "ndview \<Rightarrow> nat \<Rightarrow> nat \<Rightarrow> nat \<Rightarrow> nat" where
  "offset v i j k = (case strides v of (s0, s1, s2) \<Rightarrow> i * s0 + j * s1 + k * s2)"

definition getitem :: "'a heap \<Rightarrow> ndview \<Rightarrow> nat \<Rightarrow> nat \<Rightarrow> nat \<Rightarrow> 'a" where
  "getitem h v i j k = h (buffer v) ! offset v i j k"

text \<open>The array a view shows, as a value.\<close>

definition read_view :: "'a heap \<Rightarrow> ndview \<Rightarrow> 'a ndarray" where
  "read_view h v =
     (case vshape v of (d0, d1, d2) \<Rightarrow>
        \<lparr>shape = (d0, d1, d2), elems = tabulate3 d0 d1 d2 (getitem h v)\<rparr>)"

text \<open>A freshly allocated array is C-contiguous: the last axis varies fastest.\<close>

definition c_contiguous :: "'a heap \<Rightarrow> ndview \<Rightarrow> bool" where
  "c_contiguous h v =
     (case vshape v of (d0, d1, d2) \<Rightarrow>
        strides v = (d1 * d2, d2, 1) \<and> length (h (buffer v)) = d0 * d1 * d2)"

definition view_moveaxis_0_last :: "ndview \<Rightarrow> ndview" where
  "view_moveaxis_0_last v =
     (case (vshape v, strides v) of ((d0, d1, d2), (s0, s1, s2)) \<Rightarrow>
        \<lparr>buffer = buffer v, vshape = (d1, d2, d0), strides = (s1, s2, s0)\<rparr>)"

definition view_moveaxis_last_0 :: "ndview \<Rightarrow> ndview" where
  "view_moveaxis_last_0 v =
     (case (vshape v, strides v) of ((d0, d1, d2), (s0, s1, s2)) \<Rightarrow>
        \<lparr>buffer = buffer v, vshape = (d2, d0, d1), strides = (s2, s0, s1)\<rparr>)"

text \<open>\<open>v[r0:r1, c0:c1] = val\<close>: every element of the slice is overwritten in the buffer.\<close>

definition box_offsets :: "ndview \<Rightarrow> int \<Rightarrow> int \<Rightarrow> int \<Rightarrow> int \<Rightarrow> nat list" where
  "box_offsets v r0 r1 c0 c1 =
     (case vshape v of (d0, d1, d2) \<Rightarrow>
        concat (map (\<lambda>i. concat (map (\<lambda>j. map (\<lambda>k. offset v i j k) [0..<d2])
                                      [slice_bound c0 d1..<slice_bound c1 d1]))
                    [slice_bound r0 d0..<slice_bound r1 d0]))"

definition setitem_rows_cols :: "'a heap \<Rightarrow> ndview \<Rightarrow> int \<Rightarrow> int \<Rightarrow> int \<Rightarrow> int \<Rightarrow> 'a \<Rightarrow> 'a heap" where
  "setitem_rows_cols h v r0 r1 c0 c1 val =
     h(buffer v := fold (\<lambda>p b. b[p := val]) (box_offsets v r0 r1 c0 c1) (h (buffer v)))"

text \<open>\<open>erase\<close> returns the heap after the assignment and the array object it returns.\<close>

definition erase ::
  "'a heap \<Rightarrow> ndview \<Rightarrow> int \<times> int \<Rightarrow> int \<Rightarrow> int \<Rightarrow> 'a \<Rightarrow> string \<Rightarrow> 'a heap \<times> ndview" where
  "erase h img tl' height width val channel_pos =
     (let img = (if channel_pos = ''first'' then view_moveaxis_0_last img else img);
          h = setitem_rows_cols h img (fst tl') (fst tl' + height) (snd tl') (snd tl' + width) val;
          img = (if channel_pos = ''first'' then view_moveaxis_last_0 img else img)
      in (h, img))"

section \<open>Concrete inputs\<close>

text \<open>
  A library to run the operations with: samples and floats are integers, \<open>warp\<close> is a
  nearest-neighbour resampling to the output shape that ignores the transform, the
  filter and the rotation return their input.
\<close>

definition nearest :: "int ndarray \<Rightarrow> nat \<times> nat \<times> nat \<Rightarrow> int ndarray" where
  "nearest img out_shape =
     (case (shape img, out_shape) of ((d0, d1, d2), (n0, n1, n2)) \<Rightarrow>
        \<lparr>shape = (n0, n1, n2),
         elems = tabulate3 n0 n1 n2
                   (\<lambda>i j k. elems img ! (i * d0 div n0) ! (j * d1 div n1) ! (k * d2 div n2))\<rparr>)"

definition toy_library :: "(int, int) library" where
  "toy_library =
     \<lparr>float_of_int = (\<lambda>n. n),
      true_divide = (\<lambda>n m. if m = 0 then 0 else int n div m),
      aa_sigma = (\<lambda>f. max 0 ((f - 1) div 2)),
      dst_corner = (\<lambda>f c. f * c),
      fmul = (\<lambda>f n. f * int n),
      fround = (\<lambda>f. f),
      rad2deg = (\<lambda>f. 57 * f),
      gaussian_filter = (\<lambda>img sigma. Inr img),
      estimate = (\<lambda>src dst. ((1, 0, 0), (0, 1, 0), (0, 0, 1))),
      affine = (\<lambda>scale rotation shear translation. ((1, 0, 0), (0, 1, 0), (0, 0, 1))),
      matrix_inverse = (\<lambda>m. Inr m),
      warp = (\<lambda>img tform output_shape order.
                case output_shape of
                  None \<Rightarrow> Inr (nearest img (shape img))
                | Some (n0, n1, n2) \<Rightarrow> Inr (nearest img (nat n0, nat n1, nat n2))),
      ndi_rotate = (\<lambda>img degrees reshape order. Inr img)\<rparr>"

text \<open>The image with sample \<open>100 * i + 10 * j + k\<close> at \<open>[i, j, k]\<close>.\<close>

definition ramp :: "nat \<Rightarrow> nat \<Rightarrow> nat \<Rightarrow> int ndarray" where
  "ramp d0 d1 d2 =
     \<lparr>shape = (d0, d1, d2), elems = tabulate3 d0 d1 d2 (\<lambda>i j k. int (100 * i + 10 * j + k))\<rparr>"

text \<open>\<open>zoom\<close> called without keyword arguments.\<close>

definition no_kwargs :: resize_kwargs where
  "no_kwargs = \<lparr>kw_interpolation_order = None, kw_anti_aliasing = None\<rparr>"

text \<open>An image of rational samples, with one row of two pixels and three channels
  in channels-last layout.\<close>

definition sample_image :: "rat ndarray" where
  "sample_image = \<lparr>shape = (1, 2, 3), elems = [[[1, 2, 3], [4, 5, 6]]]\<rparr>"



text \<open>A heap with one buffer of twelve samples, and a C-contiguous view of it with shape
  \<open>(2, 2, 3)\<close>.\<close>

definition heap0 :: "int heap" where
  "heap0 = (\<lambda>b. if b = 0 then [0, 1, 2, 3, 4, 5, 6, 7, 8, 9, 10, 11] else [])"

definition view0 :: ndview where
  "view0 = \<lparr>buffer = 0, vshape = (2, 2, 3), strides = (6, 3, 1)\<rparr>"


section \<open>Facts about arrays\<close>

lemma length_tabulate3 [simp]: "length (tabulate3 d0 d1 d2 f) = d0"
  by (simp add: tabulate3_def)

lemma nth_tabulate3 [simp]:
  "i < d0 \<Longrightarrow> tabulate3 d0 d1 d2 f ! i = map (\<lambda>j. map (\<lambda>k. f i j k) [0..<d2]) [0..<d1]"
  by (simp add: tabulate3_def)

lemma tabulate3_cong:
  assumes "\<And>i j k. i < d0 \<Longrightarrow> j < d1 \<Longrightarrow> k < d2 \<Longrightarrow> f i j k = g i j k"
  shows "tabulate3 d0 d1 d2 f = tabulate3 d0 d1 d2 g"
  using assms by (simp add: tabulate3_def)

lemma wf_array_tabulate3 [simp]: "wf_array \<lparr>shape = (d0, d1, d2), elems = tabulate3 d0 d1 d2 f\<rparr>"
  by (simp add: wf_array_def tabulate3_def list_all_iff)

lemma wf_array_lengths:
  assumes "wf_array a" and "shape a = (d0, d1, d2)"
  shows "length (elems a) = d0"
    and "i < d0 \<Longrightarrow> length (elems a ! i) = d1"
    and "i < d0 \<Longrightarrow> j < d1 \<Longrightarrow> length (elems a ! i ! j) = d2"
  using assms by (auto simp: wf_array_def list_all_length)

lemma wf_array_elems:
  assumes "wf_array a" and "shape a = (d0, d1, d2)"
  shows "elems a = tabulate3 d0 d1 d2 (\<lambda>i j k. elems a ! i ! j ! k)"
proof (rule nth_equalityI)
  show "length (elems a) = length (tabulate3 d0 d1 d2 (\<lambda>i j k. elems a ! i ! j ! k))"
    using wf_array_lengths(1)[OF assms] by simp
next
  fix i assume "i < length (elems a)"
  then have i: "i < d0" using wf_array_lengths(1)[OF assms] by simp
  have "elems a ! i = map (\<lambda>j. map (\<lambda>k. elems a ! i ! j ! k) [0..<d2]) [0..<d1]"
  proof (rule nth_equalityI)
    show "length (elems a ! i) = length (map (\<lambda>j. map (\<lambda>k. elems a ! i ! j ! k) [0..<d2]) [0..<d1])"
      using wf_array_lengths(2)[OF assms i] by simp
  next
    fix j assume "j < length (elems a ! i)"
    then have j: "j < d1" using wf_array_lengths(2)[OF assms i] by simp
    have "length (elems a ! i ! j) = d2" using wf_array_lengths(3)[OF assms i j] .
    then have "elems a ! i ! j = map (\<lambda>k. elems a ! i ! j ! k) [0..<d2]"
      by (metis map_nth)
    then show "elems a ! i ! j = map (\<lambda>j. map (\<lambda>k. elems a ! i ! j ! k) [0..<d2]) [0..<d1] ! j"
      using j by simp
  qed
  then show "elems a ! i = tabulate3 d0 d1 d2 (\<lambda>i j k. elems a ! i ! j ! k) ! i"
    using i by simp
qed

lemma wf_array_eqI:
  assumes "wf_array a" and "shape a = (d0, d1, d2)"
  shows "a = \<lparr>shape = (d0, d1, d2), elems = tabulate3 d0 d1 d2 (\<lambda>i j k. elems a ! i ! j ! k)\<rparr>"
  using wf_array_elems[OF assms] assms(2) by (cases a) simp

lemma shape_moveaxis_0_last: "shape a = (d0, d1, d2) \<Longrightarrow> shape (moveaxis_0_last a) = (d1, d2, d0)"
  by (simp add: moveaxis_0_last_def)

lemma shape_moveaxis_last_0: "shape a = (d0, d1, d2) \<Longrightarrow> shape (moveaxis_last_0 a) = (d2, d0, d1)"
  by (simp add: moveaxis_last_0_def)

lemma wf_moveaxis_0_last [simp]: "wf_array (moveaxis_0_last a)"
  by (cases "shape a") (simp add: moveaxis_0_last_def)

lemma wf_moveaxis_last_0 [simp]: "wf_array (moveaxis_last_0 a)"
  by (cases "shape a") (simp add: moveaxis_last_0_def)

lemma moveaxis_last_0_0_last:
  assumes "wf_array a"
  shows "moveaxis_last_0 (moveaxis_0_last a) = a"
proof -
  obtain d0 d1 d2 where s: "shape a = (d0, d1, d2)" by (cases "shape a") auto
  have "moveaxis_last_0 (moveaxis_0_last a) =
      \<lparr>shape = (d0, d1, d2), elems = tabulate3 d0 d1 d2 (\<lambda>i j k. elems a ! i ! j ! k)\<rparr>"
    by (auto simp: moveaxis_last_0_def moveaxis_0_last_def s intro!: tabulate3_cong)
  then show ?thesis using wf_array_eqI[OF assms s] by simp
qed

lemma moveaxis_0_last_last_0:
  assumes "wf_array a"
  shows "moveaxis_0_last (moveaxis_last_0 a) = a"
proof -
  obtain d0 d1 d2 where s: "shape a = (d0, d1, d2)" by (cases "shape a") auto
  have "moveaxis_0_last (moveaxis_last_0 a) =
      \<lparr>shape = (d0, d1, d2), elems = tabulate3 d0 d1 d2 (\<lambda>i j k. elems a ! i ! j ! k)\<rparr>"
    by (auto simp: moveaxis_last_0_def moveaxis_0_last_def s intro!: tabulate3_cong)
  then show ?thesis using wf_array_eqI[OF assms s] by simp
qed

subsection \<open>Slices and flips\<close>


lemma slice_bound_le: "slice_bound i n \<le> n"
  by (auto simp: slice_bound_def Let_def)

lemma set_py_slice: "set (py_slice a b xs) \<subseteq> set xs"
  by (auto simp: py_slice_def Let_def dest!: in_set_takeD in_set_dropD)

lemma length_py_slice:
  "length (py_slice a b xs) = slice_bound b (length xs) - slice_bound a (length xs)"
  using slice_bound_le[of b "length xs"] by (simp add: py_slice_def Let_def)

lemma nth_py_slice:
  "i < slice_bound b (length xs) - slice_bound a (length xs) \<Longrightarrow>
   py_slice a b xs ! i = xs ! (slice_bound a (length xs) + i)"
  using slice_bound_le[of b "length xs"] by (simp add: py_slice_def Let_def)

lemma slice_bound_nonneg: "0 \<le> i \<Longrightarrow> i \<le> int n \<Longrightarrow> slice_bound i n = nat i"
  by (auto simp: slice_bound_def Let_def)

lemma wf_fliplr: "wf_array a \<Longrightarrow> wf_array (fliplr a)"
  by (cases "shape a") (auto simp: wf_array_def fliplr_def list_all_iff)

lemma wf_flipud: "wf_array a \<Longrightarrow> wf_array (flipud a)"
  by (cases "shape a") (auto simp: wf_array_def flipud_def list_all_iff)

lemma fliplr_fliplr: "fliplr (fliplr a) = a"
  by (simp add: fliplr_def comp_def)

lemma flipud_flipud: "flipud (flipud a) = a"
  by (simp add: flipud_def)

lemma wf_getitem_all_rows_cols:
  assumes "wf_array a"
  shows "wf_array (getitem_all_rows_cols a r0 r1 c0 c1)"
  using assms
  using set_py_slice
  by (cases "shape a") (fastforce simp: wf_array_def getitem_all_rows_cols_def list_all_iff length_py_slice)

lemma wf_getitem_rows_cols:
  assumes "wf_array a"
  shows "wf_array (getitem_rows_cols a r0 r1 c0 c1)"
  using assms
proof -
  obtain d0 d1 d2 where s: "shape a = (d0, d1, d2)" by (cases "shape a") auto
  have in_rows: "q \<in> set (elems a)" if "q \<in> set (py_slice r0 r1 (elems a))" for q
    using that set_py_slice[of r0 r1 "elems a"] by auto
  have lq: "length q = d1" and lr: "\<And>r. r \<in> set q \<Longrightarrow> length r = d2" if "q \<in> set (elems a)" for q
    using that assms s by (auto simp: wf_array_def list_all_iff)
  have "length (py_slice c0 c1 q) = slice_bound c1 d1 - slice_bound c0 d1 \<and>
        (\<forall>r \<in> set (py_slice c0 c1 q). length r = d2)"
    if "q \<in> set (py_slice r0 r1 (elems a))" for q
    using lq[OF in_rows[OF that]] lr[OF in_rows[OF that]] set_py_slice[of c0 c1 q]
    by (auto simp: length_py_slice)
  moreover have "length (elems a) = d0" using assms s by (simp add: wf_array_def)
  ultimately show ?thesis
    by (auto simp: wf_array_def getitem_rows_cols_def s list_all_iff length_py_slice)
qed

lemma crop_conjugate:
  assumes wf: "wf_array a"
  shows "moveaxis_last_0 (getitem_rows_cols (moveaxis_0_last a) r0 r1 c0 c1) =
         getitem_all_rows_cols a r0 r1 c0 c1"
proof -
  obtain C H W where s: "shape a = (C, H, W)" by (cases "shape a") auto
  define n0 where "n0 = slice_bound r1 H - slice_bound r0 H"
  define n1 where "n1 = slice_bound c1 W - slice_bound c0 W"
  let ?R = "getitem_all_rows_cols a r0 r1 c0 c1"
  have sR: "shape ?R = (C, n0, n1)"
    by (simp add: getitem_all_rows_cols_def s n0_def n1_def)
  have R: "?R = \<lparr>shape = (C, n0, n1), elems = tabulate3 C n0 n1 (\<lambda>k i j. elems ?R ! k ! i ! j)\<rparr>"
    by (rule wf_array_eqI[OF wf_getitem_all_rows_cols[OF wf] sR])
  have el: "elems ?R ! k ! i ! j = elems a ! k ! (slice_bound r0 H + i) ! (slice_bound c0 W + j)"
    if "k < C" "i < n0" "j < n1" for k i j
  proof -
    have l1: "length (elems a ! k) = H" using wf_array_lengths(2)[OF wf s that(1)] .
    have "slice_bound r0 H + i < H" using that(2) slice_bound_le[of r1 H] by (simp add: n0_def)
    then have l2: "length (elems a ! k ! (slice_bound r0 H + i)) = W"
      using wf_array_lengths(3)[OF wf s that(1)] by simp
    show ?thesis
      using that wf_array_lengths(1)[OF wf s] l1 l2
      by (simp add: getitem_all_rows_cols_def s nth_py_slice length_py_slice n0_def n1_def)
  qed
  have "moveaxis_last_0 (getitem_rows_cols (moveaxis_0_last a) r0 r1 c0 c1) =
        \<lparr>shape = (C, n0, n1), elems = tabulate3 C n0 n1 (\<lambda>k i j. elems ?R ! k ! i ! j)\<rparr>"
    apply (simp add: moveaxis_last_0_def getitem_rows_cols_def moveaxis_0_last_def s n0_def[symmetric] n1_def[symmetric])
    apply (rule tabulate3_cong)
    subgoal for k i j
      using slice_bound_le[of r1 H] slice_bound_le[of c1 W]
      by (simp add: el nth_py_slice length_py_slice n0_def n1_def)
    done
  then show ?thesis using R by simp
qed

subsection \<open>The concrete image\<close>

lemma wf_ramp: "wf_array (ramp d0 d1 d2)"
  by (simp add: ramp_def)

lemma shape_ramp: "shape (ramp d0 d1 d2) = (d0, d1, d2)"
  by (simp add: ramp_def)

section \<open>The flips are involutions\<close>

text \<open>
  Claim C9. For every image and both channel layouts, flipping twice gives the image
  back: \<open>hflip(hflip(img)) == img\<close> and \<open>vflip(vflip(img)) == img\<close>. The hypothesis is
  the invariant of NumPy arrays. The witness also shows that one flip changes the image.
\<close>

theorem flips_involution:
  assumes "wf_array img"
  shows "hflip (hflip img channel_pos) channel_pos = img \<and>
         vflip (vflip img channel_pos) channel_pos = img"
  using assms
  by (simp add: hflip_def vflip_def Let_def moveaxis_0_last_last_0 moveaxis_last_0_0_last
      wf_fliplr wf_flipud fliplr_fliplr flipud_flipud)

theorem flips_involution_witness:
  "wf_array (ramp 2 2 3) \<and>
   hflip (ramp 2 2 3) ''first'' \<noteq> ramp 2 2 3 \<and>
   hflip (hflip (ramp 2 2 3) ''first'') ''first'' = ramp 2 2 3 \<and>
   vflip (vflip (ramp 2 2 3) ''first'') ''first'' = ramp 2 2 3"
proof -
  have ne: "hflip (ramp 2 2 3) ''first'' \<noteq> ramp 2 2 3"
    by code_simp
  show ?thesis
    using flips_involution[OF wf_ramp, of 2 2 3 "''first''"] wf_ramp ne by simp
qed

section \<open>crop\<close>

text \<open>
  The test of \<open>crop\<close> (lines 155 and 156): the error is raised, and no slice is taken,
  when \<open>tl[0] + height\<close> is beyond the number of rows or \<open>tl[1] + width\<close> beyond the
  number of columns, the rows and columns being axes 1 and 2 of a channel-first image
  and axes 0 and 1 otherwise. The example is the box at \<open>(8, 8)\<close> of height and width 5
  on a 10 by 10 image with three channels.
\<close>

lemma crop_far_edge_error:
  assumes "shape img = (d0, d1, d2)"
    and "int (if channel_pos = ''first'' then d1 else d0) < fst tl' + height \<or>
         int (if channel_pos = ''first'' then d2 else d1) < snd tl' + width"
  shows "crop img tl' height width channel_pos = Inl IndexError"
  using assms by (auto simp: crop_def Let_def moveaxis_0_last_def)

lemma crop_far_edge_example:
  "crop (ramp 3 10 10) (8, 8) 5 5 ''first'' = Inl IndexError"
  using crop_far_edge_error[OF shape_ramp[of 3 10 10], where tl' = "(8, 8)" and height = 5
      and width = 5 and channel_pos = "''first''"]
  by simp

text \<open>
  The test is the only one: whatever the corner, a box whose far edges are within the
  image is not rejected.
\<close>

lemma crop_corner_not_tested:
  assumes "shape img = (d0, d1, d2)"
    and "fst tl' + height \<le> int (if channel_pos = ''first'' then d1 else d0)"
    and "snd tl' + width \<le> int (if channel_pos = ''first'' then d2 else d1)"
  shows "\<exists>out. crop img tl' height width channel_pos = Inr out"
  using assms by (auto simp: crop_def Let_def moveaxis_0_last_def)

text \<open>
  Claim C4. The claim says that \<open>crop\<close> raises its bounds error whenever the box
  reaches past the image. The source tests the bottom and right edges only. A box
  whose corner is above or left of the image is not rejected: on a 3-channel 4 by 4
  image the box at \<open>(-2, -2)\<close> of height and width 2 gives an empty array of shape
  \<open>(3, 0, 0)\<close>, and on the same image in channels-last layout the box at \<open>(-3, -3)\<close>
  gives rows and columns 1 and 2, counted from the far edges by the slice.
\<close>

theorem crop_negative_corner:
  "crop (ramp 3 4 4) (-2, -2) 2 2 ''first'' = Inr \<lparr>shape = (3, 0, 0), elems = [[], [], []]\<rparr> \<and>
   crop (ramp 4 4 3) (-3, -3) 2 2 ''last'' =
     Inr \<lparr>shape = (2, 2, 3),
          elems = [[[110, 111, 112], [120, 121, 122]], [[210, 211, 212], [220, 221, 222]]]\<rparr>"
  by code_simp

lemma getitem_rows_cols_nth:
  assumes wf: "wf_array a" and s: "shape a = (d0, d1, d2)"
    and b: "0 \<le> r" "0 \<le> c" "0 \<le> h" "0 \<le> w" "r + h \<le> int d0" "c + w \<le> int d1"
  shows "shape (getitem_rows_cols a r (r + h) c (c + w)) = (nat h, nat w, d2)"
    and "y < nat h \<Longrightarrow> x < nat w \<Longrightarrow>
         elems (getitem_rows_cols a r (r + h) c (c + w)) ! y ! x = elems a ! (nat r + y) ! (nat c + x)"
proof -
  have sb: "slice_bound r d0 = nat r" "slice_bound (r + h) d0 = nat r + nat h"
    "slice_bound c d1 = nat c" "slice_bound (c + w) d1 = nat c + nat w"
    using b by (simp_all add: slice_bound_nonneg nat_add_distrib)
  show "shape (getitem_rows_cols a r (r + h) c (c + w)) = (nat h, nat w, d2)"
    by (simp add: getitem_rows_cols_def s sb)
  assume yx: "y < nat h" "x < nat w"
  have l0: "length (elems a) = d0" using wf_array_lengths(1)[OF wf s] .
  have "nat r + y < d0" using yx b by linarith
  then have l1: "length (elems a ! (nat r + y)) = d1" using wf_array_lengths(2)[OF wf s] by simp
  show "elems (getitem_rows_cols a r (r + h) c (c + w)) ! y ! x = elems a ! (nat r + y) ! (nat c + x)"
    using yx by (simp add: getitem_rows_cols_def s nth_py_slice length_py_slice l0 l1 sb)
qed

lemma getitem_all_rows_cols_nth:
  assumes wf: "wf_array a" and s: "shape a = (d0, d1, d2)"
    and b: "0 \<le> r" "0 \<le> c" "0 \<le> h" "0 \<le> w" "r + h \<le> int d1" "c + w \<le> int d2"
  shows "shape (getitem_all_rows_cols a r (r + h) c (c + w)) = (d0, nat h, nat w)"
    and "k < d0 \<Longrightarrow> y < nat h \<Longrightarrow> x < nat w \<Longrightarrow>
         elems (getitem_all_rows_cols a r (r + h) c (c + w)) ! k ! y ! x =
         elems a ! k ! (nat r + y) ! (nat c + x)"
proof -
  have sb: "slice_bound r d1 = nat r" "slice_bound (r + h) d1 = nat r + nat h"
    "slice_bound c d2 = nat c" "slice_bound (c + w) d2 = nat c + nat w"
    using b by (simp_all add: slice_bound_nonneg nat_add_distrib)
  show "shape (getitem_all_rows_cols a r (r + h) c (c + w)) = (d0, nat h, nat w)"
    by (simp add: getitem_all_rows_cols_def s sb)
  assume kyx: "k < d0" "y < nat h" "x < nat w"
  have l0: "length (elems a) = d0" using wf_array_lengths(1)[OF wf s] .
  have l1: "length (elems a ! k) = d1" using wf_array_lengths(2)[OF wf s kyx(1)] .
  have "nat r + y < d1" using kyx b by linarith
  then have l2: "length (elems a ! k ! (nat r + y)) = d2"
    using wf_array_lengths(3)[OF wf s kyx(1)] by simp
  show "elems (getitem_all_rows_cols a r (r + h) c (c + w)) ! k ! y ! x =
         elems a ! k ! (nat r + y) ! (nat c + x)"
    using kyx by (simp add: getitem_all_rows_cols_def s nth_py_slice length_py_slice l0 l1 l2 sb)
qed

text \<open>
  Claim C5. When the box lies within the image, \<open>crop\<close> returns exactly the slice
  \<open>[top:top+height, left:left+width]\<close> of the two spatial axes, in the caller's layout:
  \<open>img[:, top:top+height, left:left+width]\<close> for a channel-first image. For a box with
  non-negative corner and extents the result has the box's extents and its element at
  row \<open>y\<close>, column \<open>x\<close> is the image's element at row \<open>top + y\<close>, column \<open>left + x\<close>, in
  every channel. The witness is the 3-channel 10 by 10 image cropped at \<open>(2, 2)\<close> to
  4 by 4, which equals \<open>img[:, 2:6, 2:6]\<close>.
\<close>

theorem crop_in_bounds:
  assumes wf: "wf_array img" and s: "shape img = (d0, d1, d2)"
    and inb: "fst tl' + height \<le> int (if channel_pos = ''first'' then d1 else d0)"
             "snd tl' + width \<le> int (if channel_pos = ''first'' then d2 else d1)"
  shows "\<exists>out. crop img tl' height width channel_pos = Inr out \<and>
           out = (if channel_pos = ''first''
                  then getitem_all_rows_cols img (fst tl') (fst tl' + height) (snd tl') (snd tl' + width)
                  else getitem_rows_cols img (fst tl') (fst tl' + height) (snd tl') (snd tl' + width)) \<and>
           (0 \<le> fst tl' \<and> 0 \<le> snd tl' \<and> 0 \<le> height \<and> 0 \<le> width \<longrightarrow>
              shape out = (if channel_pos = ''first'' then (d0, nat height, nat width)
                           else (nat height, nat width, d2)) \<and>
              (\<forall>y < nat height. \<forall>x < nat width.
                 if channel_pos = ''first''
                 then \<forall>c < d0. elems out ! c ! y ! x =
                                elems img ! c ! (nat (fst tl') + y) ! (nat (snd tl') + x)
                 else elems out ! y ! x = elems img ! (nat (fst tl') + y) ! (nat (snd tl') + x)))"
proof (cases "channel_pos = ''first''")
  case True
  have "crop img tl' height width channel_pos =
        Inr (getitem_all_rows_cols img (fst tl') (fst tl' + height) (snd tl') (snd tl' + width))"
    using inb True by (simp add: crop_def Let_def shape_moveaxis_0_last[OF s] crop_conjugate[OF wf])
  then show ?thesis
    using True inb getitem_all_rows_cols_nth[OF wf s, of "fst tl'" "snd tl'" height width]
    by simp
next
  case False
  have "crop img tl' height width channel_pos =
        Inr (getitem_rows_cols img (fst tl') (fst tl' + height) (snd tl') (snd tl' + width))"
    using inb False by (simp add: crop_def Let_def s)
  then show ?thesis
    using False inb getitem_rows_cols_nth[OF wf s, of "fst tl'" "snd tl'" height width]
    by simp
qed

theorem crop_in_bounds_witness:
  "wf_array (ramp 3 10 10) \<and> shape (ramp 3 10 10) = (3, 10, 10) \<and> (2::int) + 4 \<le> 10 \<and>
   crop (ramp 3 10 10) (2, 2) 4 4 ''first'' = Inr (getitem_all_rows_cols (ramp 3 10 10) 2 6 2 6) \<and>
   elems (getitem_all_rows_cols (ramp 3 10 10) 2 6 2 6) ! 1 =
     [[122, 123, 124, 125], [132, 133, 134, 135], [142, 143, 144, 145], [152, 153, 154, 155]]"
proof -
  have v: "elems (getitem_all_rows_cols (ramp 3 10 10) 2 6 2 6) ! 1 =
     [[122, 123, 124, 125], [132, 133, 134, 135], [142, 143, 144, 145], [152, 153, 154, 155]]"
    by code_simp
  show ?thesis
    using crop_in_bounds[OF wf_ramp shape_ramp[of 3 10 10], where tl' = "(2, 2)" and height = 4
        and width = 4 and channel_pos = "''first''"] v
    by (simp add: wf_ramp shape_ramp)
qed

section \<open>Channel-first calls in terms of channels-last calls\<close>

lemma last_not_first: "''last'' \<noteq> ''first''"
  by simp

lemma resize_first:
  assumes "cp \<noteq> ''first''"
  shows "resize L img sz n aa ''first'' = map_sum id moveaxis_last_0 (resize L (moveaxis_0_last img) sz n aa cp)"
  using assms
  by (simp add: resize_def Let_def split: sum.splits prod.splits)

lemma rescale_first:
  assumes "cp \<noteq> ''first''"
  shows "rescale L img sc n aa ''first'' = map_sum id moveaxis_last_0 (rescale L (moveaxis_0_last img) sc n aa cp)"
  using assms
  by (cases "shape img")
     (simp add: rescale_def Let_def moveaxis_0_last_def resize_first[OF assms]  split: sum.splits prod.splits)

lemma crop_first:
  assumes "cp \<noteq> ''first''"
  shows "crop img tl' height width ''first'' = map_sum id moveaxis_last_0 (crop (moveaxis_0_last img) tl' height width cp)"
  using assms by (simp add: crop_def Let_def)

lemma hflip_first: "cp \<noteq> ''first'' \<Longrightarrow> hflip img ''first'' = moveaxis_last_0 (hflip (moveaxis_0_last img) cp)"
  by (simp add: hflip_def Let_def)

lemma vflip_first: "cp \<noteq> ''first'' \<Longrightarrow> vflip img ''first'' = moveaxis_last_0 (vflip (moveaxis_0_last img) cp)"
  by (simp add: vflip_def Let_def)

lemma rotate_first:
  "cp \<noteq> ''first'' \<Longrightarrow> rotate_img L img angle reshape n ''first'' =
     map_sum id moveaxis_last_0 (rotate_img L (moveaxis_0_last img) angle reshape n cp)"
  by (simp add: rotate_img_def Let_def split: sum.splits)

lemma shear_first:
  "cp \<noteq> ''first'' \<Longrightarrow> shear L img angle n ''first'' =
     map_sum id moveaxis_last_0 (shear L (moveaxis_0_last img) angle n cp)"
  by (simp add: shear_def Let_def split: sum.splits)

lemma affine_transform_first:
  "cp \<noteq> ''first'' \<Longrightarrow> affine_transform L img sc ro sh tr n ''first'' =
     map_sum id moveaxis_last_0 (affine_transform L (moveaxis_0_last img) sc ro sh tr n cp)"
  by (simp add: affine_transform_def Let_def split: sum.splits)

lemma zoom_first:
  "cp \<noteq> ''first'' \<Longrightarrow> zoom L img tl' height width ''first'' kw =
     map_sum id moveaxis_last_0 (zoom L (moveaxis_0_last img) tl' height width cp kw)"
  by (simp add: zoom_def Let_def split: sum.splits)

lemma stretch_first:
  "cp \<noteq> ''first'' \<Longrightarrow> stretch L img angle n aa ''first'' =
     map_sum id moveaxis_last_0 (stretch L (moveaxis_0_last img) angle n aa cp)"
  by (simp add: stretch_def Let_def split: sum.splits)

lemma view_moveaxis_roundtrip: "view_moveaxis_last_0 (view_moveaxis_0_last v) = v"
  by (cases "vshape v"; cases "strides v") (simp add: view_moveaxis_last_0_def view_moveaxis_0_last_def)

lemma erase_returns_view: "snd (erase h img tl' height width val cp) = img"
  by (simp add: erase_def Let_def view_moveaxis_roundtrip)

lemma broadcast_shape:
  assumes "broadcast f img v = Inr out"
  shows "fst (shape out) = fst (shape img) \<and> fst (snd (shape out)) = fst (snd (shape img))"
  using assms by (auto simp: broadcast_def split: operand.splits prod.splits if_splits)

lemma normalise_shape:
  assumes "normalise img mean std = Inr out"
  shows "fst (shape out) = fst (shape img) \<and> fst (snd (shape out)) = fst (snd (shape img))"
proof -
  obtain centred where c: "broadcast (\<lambda>x m. x - m) img mean = Inr centred"
    and o: "broadcast (\<lambda>x s. x / s) centred std = Inr out"
    using assms by (auto simp: normalise_def split: sum.splits)
  show ?thesis using broadcast_shape[OF c] broadcast_shape[OF o] by simp
qed

section \<open>resize and rescale: the size argument\<close>

lemma resize_not_first:
  "cp \<noteq> ''first'' \<Longrightarrow> resize L img sz n aa cp = resize L img sz n aa ''last''"
  by (simp add: resize_def Let_def split: sum.splits prod.splits)

lemma crop_not_first:
  "cp \<noteq> ''first'' \<Longrightarrow> crop img tl' height width cp = crop img tl' height width ''last''"
  by (simp add: crop_def Let_def)

lemma shear_not_first:
  "cp \<noteq> ''first'' \<Longrightarrow> shear L img angle n cp = shear L img angle n ''last''"
  by (simp add: shear_def Let_def split: sum.splits)

lemma resize_unbound:
  "resize L img (SizeList xs) n aa cp = Inl UnboundLocalError"
  "resize L img (SizeArray fs) n aa cp = Inl UnboundLocalError"
  by (simp_all add: resize_def Let_def)

lemma resize_int_square:
  "resize L img (SizeInt m) n aa cp =
   resize L img (SizeTuple [m, m, int (snd (snd (shape (if cp = ''first'' then moveaxis_0_last img else img))))]) n aa cp"
  by (simp add: resize_def Let_def)

text \<open>
  Claim C2. The claim says that a \<open>size\<close> of two elements is completed with the
  channel count, and that a tuple or a list of three elements is used as it is. The
  source does neither for these inputs: with a tuple of two elements \<open>resize\<close> raises
  \<open>AttributeError\<close> (it reads \<open>img.output_shape\<close>), and with any list it raises
  \<open>UnboundLocalError\<close> (the test compares the type with \<open>tuple\<close> only). This holds for
  every image, library and layout. \<open>resize_int_square\<close> above is the part of the claim
  that holds: an \<open>int\<close> gives the square shape with the channel count of the image.
\<close>

theorem resize_size_dispatch:
  "resize L img (SizeTuple [rows, cols]) n aa cp = Inl AttributeError \<and>
   resize L img (SizeList xs) n aa cp = Inl UnboundLocalError"
  by (simp add: resize_def Let_def)

text \<open>
  Claim C3. The claim says that \<open>rescale\<close> rounds \<open>scale * spatial_shape\<close> and returns
  what \<open>resize\<close> returns. In the source \<open>spatial_shape\<close> is a tuple, so for a \<open>float\<close>, a
  \<open>tuple\<close> or a \<open>list\<close> the product raises \<open>TypeError\<close> and \<open>resize\<close> is never called.
  \<open>rescale_never_returns\<close> below adds that no \<open>scale\<close> of the model makes \<open>rescale\<close>
  return: an \<open>int\<close> or an array reaches \<open>resize\<close> with an array as \<open>size\<close>, which it
  rejects.
\<close>

theorem rescale_raises:
  "rescale L img (ScaleFloat f) n aa cp = Inl TypeError \<and>
   rescale L img (ScaleTuple fs) n aa cp = Inl TypeError \<and>
   rescale L img (ScaleList fs) n aa cp = Inl TypeError"
  by (cases "shape img") (simp add: rescale_def Let_def split: prod.splits)

lemma rescale_never_returns: "\<exists>e. rescale L img sc n aa cp = Inl e"
proof -
  obtain d0 d1 d2 where s: "shape img = (d0, d1, d2)" by (cases "shape img") auto
  define hw where "hw = (if cp = ''first'' then (d1, d2) else (d0, d1))"
  have r: "rescale L img sc n aa cp =
      (case mul_shape L sc hw of Inl e \<Rightarrow> Inl e | Inr p \<Rightarrow> resize L img (np_round L p) n aa cp)"
    by (simp add: rescale_def Let_def s hw_def split: sum.splits)
  show ?thesis
  proof (cases "mul_shape L sc hw")
    case (Inl e)
    then show ?thesis by (simp add: r)
  next
    case (Inr p)
    then show ?thesis by (cases p) (simp_all add: r resize_unbound)
  qed
qed

section \<open>zoom and stretch are compositions\<close>

text \<open>
  \<open>resize\<close> reads \<open>size\<close> as rows, columns, channels whatever the layout. Given the
  shape of a channel-first image as it stands, channels first, it compares the channel
  count with the last entry and fails its assertion unless the two agree.
\<close>

lemma resize_first_physical_shape:
  assumes "shape cropped = (d0, e1, e2)" and "d0 \<noteq> d2"
  shows "resize L cropped (SizeTuple [int d0, int d1, int d2]) n aa ''first'' = Inl AssertionError"
  using assms by (simp add: resize_def Let_def shape_moveaxis_0_last[OF assms(1)])

text \<open>
  Claim C6. For every image and every box, \<open>zoom\<close> equals \<open>crop\<close> with the same box
  and layout followed by \<open>resize\<close> with the same layout, to the shape of the original
  image; the keyword arguments of \<open>zoom\<close> are those of this \<open>resize\<close>, the defaults
  (order 3, no anti-aliasing) when none is given. The shape is given the way \<open>resize\<close>
  reads its \<open>size\<close>: rows, columns, channels. A box out of bounds makes both sides the
  error of \<open>crop\<close>. The witness runs both sides on a 3-channel 4 by 4 image.
\<close>

theorem zoom_crop_resize:
  assumes "shape img = (d0, d1, d2)"
  shows "zoom L img tl' height width channel_pos kwargs =
     (case crop img tl' height width channel_pos of
        Inl e \<Rightarrow> Inl e
      | Inr cropped \<Rightarrow>
          resize L cropped
            (SizeTuple (if channel_pos = ''first'' then [int d1, int d2, int d0]
                        else [int d0, int d1, int d2]))
            (case kw_interpolation_order kwargs of None \<Rightarrow> 3 | Some n \<Rightarrow> n)
            (case kw_anti_aliasing kwargs of None \<Rightarrow> False | Some b \<Rightarrow> b)
            channel_pos)"
proof (cases "channel_pos = ''first''")
  case True
  have wf: "wf_array (getitem_rows_cols (moveaxis_0_last img) r0 r1 c0 c1)" for r0 r1 c0 c1
    by (rule wf_getitem_rows_cols) simp
  show ?thesis
    using True
    by (simp add: zoom_def Let_def crop_def shape_tuple_def shape_moveaxis_0_last[OF assms]
        resize_first[OF last_not_first] moveaxis_0_last_last_0[OF wf] split: sum.splits)
next
  case False
  then show ?thesis
    by (simp add: zoom_def Let_def shape_tuple_def assms crop_not_first[OF False]
        resize_not_first[OF False] split: sum.splits)
qed

theorem zoom_crop_resize_witness:
  "shape (ramp 3 4 4) = (3, 4, 4) \<and>
   crop (ramp 3 4 4) (1, 1) 2 2 ''first'' =
     Inr \<lparr>shape = (3, 2, 2),
          elems = [[[11, 12], [21, 22]], [[111, 112], [121, 122]], [[211, 212], [221, 222]]]\<rparr> \<and>
   zoom toy_library (ramp 3 4 4) (1, 1) 2 2 ''first'' no_kwargs =
     resize toy_library
       \<lparr>shape = (3, 2, 2),
        elems = [[[11, 12], [21, 22]], [[111, 112], [121, 122]], [[211, 212], [221, 222]]]\<rparr>
       (SizeTuple [4, 4, 3]) 3 False ''first'' \<and>
   zoom toy_library (ramp 3 4 4) (1, 1) 2 2 ''first'' no_kwargs =
     Inr \<lparr>shape = (3, 4, 4),
          elems =
            [[[11, 11, 12, 12], [11, 11, 12, 12], [21, 21, 22, 22], [21, 21, 22, 22]],
             [[111, 111, 112, 112], [111, 111, 112, 112], [121, 121, 122, 122], [121, 121, 122, 122]],
             [[211, 211, 212, 212], [211, 211, 212, 212], [221, 221, 222, 222], [221, 221, 222, 222]]]\<rparr>"
proof -
  have c: "crop (ramp 3 4 4) (1, 1) 2 2 ''first'' =
     Inr \<lparr>shape = (3, 2, 2),
          elems = [[[11, 12], [21, 22]], [[111, 112], [121, 122]], [[211, 212], [221, 222]]]\<rparr>"
    by code_simp
  have z: "zoom toy_library (ramp 3 4 4) (1, 1) 2 2 ''first'' no_kwargs =
     Inr \<lparr>shape = (3, 4, 4),
          elems =
            [[[11, 11, 12, 12], [11, 11, 12, 12], [21, 21, 22, 22], [21, 21, 22, 22]],
             [[111, 111, 112, 112], [111, 111, 112, 112], [121, 121, 122, 122], [121, 121, 122, 122]],
             [[211, 211, 212, 212], [211, 211, 212, 212], [221, 221, 222, 222], [221, 221, 222, 222]]]\<rparr>"
    by code_simp
  have k: "kw_interpolation_order no_kwargs = None" "kw_anti_aliasing no_kwargs = None"
    by (simp_all add: no_kwargs_def)
  show ?thesis
    using zoom_crop_resize[OF shape_ramp[of 3 4 4], where L = toy_library and tl' = "(1, 1)"
        and height = 2 and width = 2 and channel_pos = "''first''" and kwargs = no_kwargs]
    unfolding c z k
    by (simp add: shape_ramp)
qed

text \<open>
  Claim C7. For every image and every angle, \<open>stretch\<close> equals \<open>shear\<close> with the same
  angle, interpolation order and layout followed by \<open>resize\<close> to the shape of the
  original image (rows, columns, channels) with the same interpolation order and
  anti-aliasing. The hypothesis on the library is the invariant of NumPy arrays for
  what \<open>warp\<close> returns.
\<close>

theorem stretch_shear_resize:
  assumes lib: "\<And>a t n r. warp L a t None n = Inr r \<Longrightarrow> wf_array r"
    and s: "shape img = (d0, d1, d2)"
  shows "stretch L img angle interpolation_order anti_aliasing channel_pos =
     (case shear L img angle interpolation_order channel_pos of
        Inl e \<Rightarrow> Inl e
      | Inr sheared \<Rightarrow>
          resize L sheared
            (SizeTuple (if channel_pos = ''first'' then [int d1, int d2, int d0]
                        else [int d0, int d1, int d2]))
            interpolation_order anti_aliasing channel_pos)"
proof (cases "channel_pos = ''first''")
  case True
  have sh: "shear L img angle interpolation_order ''first'' =
      map_sum id moveaxis_last_0 (shear L (moveaxis_0_last img) angle interpolation_order ''last'')"
    by (rule shear_first[OF last_not_first])
  have wf: "wf_array r" if "shear L a angle interpolation_order ''last'' = Inr r" for a r
    using that lib by (auto simp: shear_def Let_def split: sum.splits)
  show ?thesis
  proof (cases "shear L (moveaxis_0_last img) angle interpolation_order ''last''")
    case (Inl e)
    then show ?thesis using True by (simp add: stretch_def Let_def sh)
  next
    case (Inr r)
    then show ?thesis
      using True
      by (simp add: stretch_def Let_def sh shape_tuple_def shape_moveaxis_0_last[OF s]
          resize_first[OF last_not_first] moveaxis_0_last_last_0[OF wf[OF Inr]] split: sum.splits)
  qed
next
  case False
  then show ?thesis
    by (simp add: stretch_def Let_def shape_tuple_def s shear_not_first[OF False]
        resize_not_first[OF False] split: sum.splits)
qed



lemma wf_nearest: "wf_array (nearest img s)"
  by (cases "shape img"; cases s) (simp add: nearest_def)

lemma toy_warp_wf: "warp toy_library a t None n = Inr r \<Longrightarrow> wf_array r"
  by (auto simp: toy_library_def wf_nearest)

text \<open>The library of the concrete inputs returns well-formed arrays; the witness is on a
  2-channel 2 by 3 image.\<close>

theorem stretch_shear_resize_witness:
  "shape (ramp 2 2 3) = (2, 2, 3) \<and>
   shear toy_library (ramp 2 2 3) 1 3 ''first'' = Inr (ramp 2 2 3) \<and>
   stretch toy_library (ramp 2 2 3) 1 3 False ''first'' =
     resize toy_library (ramp 2 2 3) (SizeTuple [2, 3, 2]) 3 False ''first'' \<and>
   stretch toy_library (ramp 2 2 3) 1 3 False ''first'' = Inr (ramp 2 2 3)"
proof -
  have sh: "shear toy_library (ramp 2 2 3) 1 3 ''first'' = Inr (ramp 2 2 3)"
    by code_simp
  have st: "stretch toy_library (ramp 2 2 3) 1 3 False ''first'' = Inr (ramp 2 2 3)"
    by code_simp
  show ?thesis
    using stretch_shear_resize[where L = toy_library, OF toy_warp_wf shape_ramp[of 2 2 3],
        where angle = 1 and interpolation_order = 3 and anti_aliasing = False
        and channel_pos = "''first''"]
    unfolding sh st
    by (simp add: shape_ramp)
qed

section \<open>Every operation keeps the caller's layout\<close>

lemma shape_to_canonical:
  "shape img = layout_shape cp (H, W, C) \<Longrightarrow> shape (to_canonical cp img) = (H, W, C)"
  by (simp add: to_canonical_def layout_shape_def moveaxis_0_last_def split: if_splits)

lemma shape_from_canonical:
  "shape r = (H, W, C) \<Longrightarrow> shape (from_canonical cp r) = layout_shape cp (H, W, C)"
  by (simp add: from_canonical_def layout_shape_def moveaxis_last_0_def)

lemma wf_to_canonical: "wf_array img \<Longrightarrow> wf_array (to_canonical cp img)"
  by (simp add: to_canonical_def)

lemma elems_to_canonical:
  assumes "shape img = layout_shape cp (H, W, C)" "y < H" "x < W" "c < C"
  shows "elems (to_canonical cp img) ! y ! x ! c = pixel cp img y x c"
  using assms
  by (simp add: to_canonical_def layout_shape_def moveaxis_0_last_def pixel_def split: if_splits)

lemma pixel_from_canonical:
  assumes "shape r = (H, W, C)" "y < H" "x < W" "c < C"
  shows "pixel cp (from_canonical cp r) y x c = elems r ! y ! x ! c"
  using assms
  by (simp add: from_canonical_def moveaxis_last_0_def pixel_def)

lemma shape_fliplr: "shape (fliplr a) = shape a"
  by (simp add: fliplr_def)

lemma shape_flipud: "shape (flipud a) = shape a"
  by (simp add: flipud_def)

lemma elems_fliplr:
  assumes wf: "wf_array a" and s: "shape a = (H, W, C)" and i: "y < H" "x < W"
  shows "elems (fliplr a) ! y ! x = elems a ! y ! (W - Suc x)"
  using wf_array_lengths(1,2)[OF wf s] i by (simp add: fliplr_def rev_nth)

lemma elems_flipud:
  assumes wf: "wf_array a" and s: "shape a = (H, W, C)" and i: "y < H"
  shows "elems (flipud a) ! y = elems a ! (H - Suc y)"
  using wf_array_lengths(1)[OF wf s] i by (simp add: flipud_def rev_nth)

lemma hflip_canonical: "hflip img cp = from_canonical cp (fliplr (to_canonical cp img))"
  by (simp add: hflip_def Let_def to_canonical_def from_canonical_def)

lemma vflip_canonical: "vflip img cp = from_canonical cp (flipud (to_canonical cp img))"
  by (simp add: vflip_def Let_def to_canonical_def from_canonical_def)

lemma hflip_layout:
  assumes wf: "wf_array img" and s: "shape img = layout_shape cp (H, W, C)"
  shows "shape (hflip img cp) = layout_shape cp (H, W, C)"
    and "y < H \<Longrightarrow> x < W \<Longrightarrow> c < C \<Longrightarrow>
         pixel cp (hflip img cp) y x c = pixel cp img y (W - Suc x) c"
proof -
  let ?a = "to_canonical cp img"
  have sa: "shape ?a = (H, W, C)" by (rule shape_to_canonical[OF s])
  have sf: "shape (fliplr ?a) = (H, W, C)" by (simp add: shape_fliplr sa)
  show "shape (hflip img cp) = layout_shape cp (H, W, C)"
    by (simp add: hflip_canonical shape_from_canonical[OF sf])
  assume i: "y < H" "x < W" "c < C"
  have "pixel cp (hflip img cp) y x c = elems (fliplr ?a) ! y ! x ! c"
    by (simp add: hflip_canonical pixel_from_canonical[OF sf i])
  also have "\<dots> = elems ?a ! y ! (W - Suc x) ! c"
    by (simp add: elems_fliplr[OF wf_to_canonical[OF wf] sa i(1,2)])
  also have "\<dots> = pixel cp img y (W - Suc x) c"
    using i by (intro elems_to_canonical[OF s]) simp_all
  finally show "pixel cp (hflip img cp) y x c = pixel cp img y (W - Suc x) c" .
qed

lemma vflip_layout:
  assumes wf: "wf_array img" and s: "shape img = layout_shape cp (H, W, C)"
  shows "shape (vflip img cp) = layout_shape cp (H, W, C)"
    and "y < H \<Longrightarrow> x < W \<Longrightarrow> c < C \<Longrightarrow>
         pixel cp (vflip img cp) y x c = pixel cp img (H - Suc y) x c"
proof -
  let ?a = "to_canonical cp img"
  have sa: "shape ?a = (H, W, C)" by (rule shape_to_canonical[OF s])
  have sf: "shape (flipud ?a) = (H, W, C)" by (simp add: shape_flipud sa)
  show "shape (vflip img cp) = layout_shape cp (H, W, C)"
    by (simp add: vflip_canonical shape_from_canonical[OF sf])
  assume i: "y < H" "x < W" "c < C"
  have "pixel cp (vflip img cp) y x c = elems (flipud ?a) ! y ! x ! c"
    by (simp add: vflip_canonical pixel_from_canonical[OF sf i])
  also have "\<dots> = elems ?a ! (H - Suc y) ! x ! c"
    by (simp add: elems_flipud[OF wf_to_canonical[OF wf] sa i(1)])
  also have "\<dots> = pixel cp img (H - Suc y) x c"
    using i by (intro elems_to_canonical[OF s]) simp_all
  finally show "pixel cp (vflip img cp) y x c = pixel cp img (H - Suc y) x c" .
qed

lemma crop_canonical:
  "crop img tl' height width cp =
     (if int (fst (shape (to_canonical cp img))) < fst tl' + height \<or>
         int (fst (snd (shape (to_canonical cp img)))) < snd tl' + width
      then Inl IndexError
      else Inr (from_canonical cp
             (getitem_rows_cols (to_canonical cp img) (fst tl') (fst tl' + height)
                (snd tl') (snd tl' + width))))"
  by (simp add: crop_def Let_def to_canonical_def from_canonical_def)

lemma crop_layout:
  assumes wf: "wf_array img" and s: "shape img = layout_shape cp (H, W, C)"
    and r: "crop img tl' height width cp = Inr out"
  shows "shape out = layout_shape cp
           (slice_bound (fst tl' + height) H - slice_bound (fst tl') H,
            slice_bound (snd tl' + width) W - slice_bound (snd tl') W, C)"
    and "0 \<le> fst tl' \<Longrightarrow> 0 \<le> snd tl' \<Longrightarrow> 0 \<le> height \<Longrightarrow> 0 \<le> width \<Longrightarrow>
         y < nat height \<Longrightarrow> x < nat width \<Longrightarrow> c < C \<Longrightarrow>
         pixel cp out y x c = pixel cp img (nat (fst tl') + y) (nat (snd tl') + x) c"
proof -
  let ?a = "to_canonical cp img"
  let ?g = "getitem_rows_cols ?a (fst tl') (fst tl' + height) (snd tl') (snd tl' + width)"
  have sa: "shape ?a = (H, W, C)" by (rule shape_to_canonical[OF s])
  have inb: "fst tl' + height \<le> int H" "snd tl' + width \<le> int W" and out: "out = from_canonical cp ?g"
    using r by (auto simp: crop_canonical sa split: if_splits)
  have sg: "shape ?g = (slice_bound (fst tl' + height) H - slice_bound (fst tl') H,
            slice_bound (snd tl' + width) W - slice_bound (snd tl') W, C)"
    by (simp add: getitem_rows_cols_def sa)
  show "shape out = layout_shape cp
           (slice_bound (fst tl' + height) H - slice_bound (fst tl') H,
            slice_bound (snd tl' + width) W - slice_bound (snd tl') W, C)"
    by (simp add: out shape_from_canonical[OF sg])
  assume b: "0 \<le> fst tl'" "0 \<le> snd tl'" "0 \<le> height" "0 \<le> width"
    and i: "y < nat height" "x < nat width" "c < C"
  have sg': "shape ?g = (nat height, nat width, C)"
    by (rule getitem_rows_cols_nth(1)[OF wf_to_canonical[OF wf] sa b inb])
  have "pixel cp out y x c = elems ?g ! y ! x ! c"
    by (simp add: out pixel_from_canonical[OF sg' i])
  also have "\<dots> = elems ?a ! (nat (fst tl') + y) ! (nat (snd tl') + x) ! c"
    by (simp add: getitem_rows_cols_nth(2)[OF wf_to_canonical[OF wf] sa b inb i(1,2)])
  also have "\<dots> = pixel cp img (nat (fst tl') + y) (nat (snd tl') + x) c"
    using i b inb by (intro elems_to_canonical[OF s]) linarith+
  finally show "pixel cp out y x c = pixel cp img (nat (fst tl') + y) (nat (snd tl') + x) c" .
qed

lemma warp_some_shape:
  "library_shapes L \<Longrightarrow> warp L a t (Some (o0, o1, o2)) n = Inr r \<Longrightarrow>
   shape r = (nat o0, nat o1, nat o2)"
  unfolding library_shapes_def by blast

lemma warp_none_shape:
  "library_shapes L \<Longrightarrow> warp L a t None n = Inr r \<Longrightarrow> shape r = shape a"
  unfolding library_shapes_def by blast

lemma rotate_shape:
  "library_shapes L \<Longrightarrow> ndi_rotate L a d re n = Inr r \<Longrightarrow>
   snd (snd (shape r)) = snd (snd (shape a)) \<and> (\<not> re \<longrightarrow> shape r = shape a)"
  unfolding library_shapes_def by blast

lemma resize_canonical:
  "resize L img sz n aa cp = map_sum id (from_canonical cp) (resize L (to_canonical cp img) sz n aa ''last'')"
  by (simp add: resize_def Let_def to_canonical_def from_canonical_def split: sum.splits prod.splits)

lemma resize_last_shape:
  assumes w: "library_shapes L"
    and s: "shape a = (H, W, C)"
    and r: "resize L a sz n aa ''last'' = Inr out"
  shows "\<exists>o0 o1. output_shape_of a sz = Inr (o0, o1, int C) \<and> shape out = (nat o0, nat o1, C)"
proof -
  obtain o0 o1 o2 where os: "output_shape_of a sz = Inr (o0, o1, o2)"
    using r by (cases "output_shape_of a sz") (auto simp: resize_def Let_def)
  have c: "o2 = int C"
    using r by (auto simp: resize_def Let_def os s split: if_splits)
  obtain a' t where "warp L a' t (Some (o0, o1, o2)) n = Inr out"
    using r by (auto simp: resize_def Let_def os s c split: if_splits sum.splits prod.splits)
  then have "shape out = (nat o0, nat o1, nat o2)" by (rule warp_some_shape[OF w])
  then show ?thesis using os c by simp
qed

lemma resize_layout:
  assumes w: "library_shapes L"
    and s: "shape img = layout_shape cp (H, W, C)"
    and r: "resize L img sz n aa cp = Inr out"
  shows "\<exists>o0 o1. output_shape_of (to_canonical cp img) sz = Inr (o0, o1, int C) \<and>
           shape out = layout_shape cp (nat o0, nat o1, C)"
proof -
  obtain out' where o: "resize L (to_canonical cp img) sz n aa ''last'' = Inr out'"
    and out: "out = from_canonical cp out'"
    using r by (subst (asm) resize_canonical) (auto simp: map_sum_def split: sum.splits)
  obtain o0 o1 where "output_shape_of (to_canonical cp img) sz = Inr (o0, o1, int C)"
    "shape out' = (nat o0, nat o1, C)"
    using resize_last_shape[OF w shape_to_canonical[OF s] o] by blast
  then show ?thesis using shape_from_canonical[of out'] out by blast
qed

lemma resize_int_layout:
  assumes w: "library_shapes L"
    and s: "shape img = layout_shape cp (H, W, C)"
  shows "case resize L img (SizeInt m) n aa cp of
           Inl e \<Rightarrow> True
         | Inr out \<Rightarrow> shape out = layout_shape cp (nat m, nat m, C)"
proof (cases "resize L img (SizeInt m) n aa cp")
  case (Inl e)
  then show ?thesis by simp
next
  case (Inr out)
  then show ?thesis using resize_layout[OF w s Inr] by auto
qed

lemma resize_tuple_layout:
  assumes w: "library_shapes L"
    and s: "shape img = layout_shape cp (H, W, C)"
  shows "case resize L img (SizeTuple [rows, cols, chans]) n aa cp of
           Inl e \<Rightarrow> True
         | Inr out \<Rightarrow> shape out = layout_shape cp (nat rows, nat cols, C)"
proof (cases "resize L img (SizeTuple [rows, cols, chans]) n aa cp")
  case (Inl e)
  then show ?thesis by simp
next
  case (Inr out)
  then show ?thesis using resize_layout[OF w s Inr] by auto
qed

lemma rotate_layout:
  assumes w: "library_shapes L"
    and s: "shape img = layout_shape cp (H, W, C)"
  shows "case rotate_img L img angle reshape n cp of
           Inl e \<Rightarrow> True
         | Inr out \<Rightarrow> (\<exists>rows cols. shape out = layout_shape cp (rows, cols, C)) \<and>
                       (\<not> reshape \<longrightarrow> shape out = layout_shape cp (H, W, C))"
proof (cases "rotate_img L img angle reshape n cp")
  case (Inl e)
  then show ?thesis by simp
next
  case (Inr out)
  then obtain r where r: "ndi_rotate L (to_canonical cp img) (rad2deg L angle) reshape n = Inr r"
    and out: "out = from_canonical cp r"
    by (auto simp: rotate_img_def Let_def to_canonical_def from_canonical_def split: sum.splits)
  obtain rows cols chans where sr: "shape r = (rows, cols, chans)" by (cases "shape r") auto
  have "chans = C" using rotate_shape[OF w r] sr shape_to_canonical[OF s] by simp
  moreover have "\<not> reshape \<Longrightarrow> shape r = (H, W, C)" using rotate_shape[OF w r] shape_to_canonical[OF s] by simp
  ultimately show ?thesis
    using Inr out sr shape_from_canonical[of r] by auto
qed

lemma shear_layout:
  assumes w: "library_shapes L"
    and s: "shape img = layout_shape cp (H, W, C)"
  shows "case shear L img angle n cp of
           Inl e \<Rightarrow> True
         | Inr out \<Rightarrow> shape out = layout_shape cp (H, W, C)"
proof (cases "shear L img angle n cp")
  case (Inl e)
  then show ?thesis by simp
next
  case (Inr out)
  then obtain t r where r: "warp L (to_canonical cp img) t None n = Inr r"
    and out: "out = from_canonical cp r"
    by (auto simp: shear_def Let_def to_canonical_def from_canonical_def split: sum.splits)
  have "shape r = (H, W, C)" using warp_none_shape[OF w r] shape_to_canonical[OF s] by simp
  then show ?thesis using Inr out shape_from_canonical[of r] by simp
qed

lemma affine_transform_layout:
  assumes w: "library_shapes L"
    and s: "shape img = layout_shape cp (H, W, C)"
  shows "case affine_transform L img scales rotation shearing translate n cp of
           Inl e \<Rightarrow> True
         | Inr out \<Rightarrow> shape out = layout_shape cp (H, W, C)"
proof (cases "affine_transform L img scales rotation shearing translate n cp")
  case (Inl e)
  then show ?thesis by simp
next
  case (Inr out)
  then obtain t r where r: "warp L (to_canonical cp img) t None n = Inr r"
    and out: "out = from_canonical cp r"
    by (auto simp: affine_transform_def Let_def to_canonical_def from_canonical_def split: sum.splits)
  have "shape r = (H, W, C)" using warp_none_shape[OF w r] shape_to_canonical[OF s] by simp
  then show ?thesis using Inr out shape_from_canonical[of r] by simp
qed

lemma shape_tuple_eq: "shape a = (H, W, C) \<Longrightarrow> shape_tuple a = SizeTuple [int H, int W, int C]"
  by (simp add: shape_tuple_def)

lemma zoom_layout:
  assumes w: "library_shapes L"
    and s: "shape img = layout_shape cp (H, W, C)"
  shows "case zoom L img tl' height width cp kwargs of
           Inl e \<Rightarrow> True
         | Inr out \<Rightarrow> shape out = layout_shape cp (H, W, C)"
proof (cases "zoom L img tl' height width cp kwargs")
  case (Inl e)
  then show ?thesis by simp
next
  case (Inr out)
  have sa: "shape (to_canonical cp img) = (H, W, C)" by (rule shape_to_canonical[OF s])
  obtain z n aa r where r: "resize L z (SizeTuple [int H, int W, int C]) n aa ''last'' = Inr r"
    and out: "out = from_canonical cp r"
    using Inr
    by (auto simp: zoom_def Let_def to_canonical_def[symmetric] from_canonical_def[symmetric]
        shape_tuple_eq[OF sa] split: sum.splits)
  obtain d0 d1 d2 where sz: "shape z = (d0, d1, d2)" by (cases "shape z") auto
  have "shape r = (H, W, d2)" using resize_last_shape[OF w sz r] by auto
  moreover have "int d2 = int C" using resize_last_shape[OF w sz r] by auto
  ultimately show ?thesis using Inr out shape_from_canonical[of r] by simp
qed

lemma stretch_layout:
  assumes w: "library_shapes L"
    and s: "shape img = layout_shape cp (H, W, C)"
  shows "case stretch L img angle n aa cp of
           Inl e \<Rightarrow> True
         | Inr out \<Rightarrow> shape out = layout_shape cp (H, W, C)"
proof (cases "stretch L img angle n aa cp")
  case (Inl e)
  then show ?thesis by simp
next
  case (Inr out)
  have sa: "shape (to_canonical cp img) = (H, W, C)" by (rule shape_to_canonical[OF s])
  obtain z r where r: "resize L z (SizeTuple [int H, int W, int C]) n aa ''last'' = Inr r"
    and out: "out = from_canonical cp r"
    using Inr
    by (auto simp: stretch_def Let_def to_canonical_def[symmetric] from_canonical_def[symmetric]
        shape_tuple_eq[OF sa] split: sum.splits)
  obtain d0 d1 d2 where sz: "shape z = (d0, d1, d2)" by (cases "shape z") auto
  have "shape r = (H, W, d2)" using resize_last_shape[OF w sz r] by auto
  moreover have "int d2 = int C" using resize_last_shape[OF w sz r] by auto
  ultimately show ?thesis using Inr out shape_from_canonical[of r] by simp
qed

lemma normalise_scalars:
  "normalise img (Scalar m) (Scalar s) = Inr (img\<lparr>elems := map (map (map (\<lambda>x. (x - m) / s))) (elems img)\<rparr>)"
  by (simp add: normalise_def broadcast_def comp_def)

lemma toy_library_shapes: "library_shapes toy_library"
  by (auto simp: library_shapes_def toy_library_def nearest_def split: prod.splits)

lemma crop_layout_case:
  assumes wf: "wf_array img" and s: "shape img = layout_shape cp (H, W, C)"
  shows "case crop img tl' height width cp of
           Inl e \<Rightarrow> True
         | Inr out \<Rightarrow>
             shape out = layout_shape cp
               (slice_bound (fst tl' + height) H - slice_bound (fst tl') H,
                slice_bound (snd tl' + width) W - slice_bound (snd tl') W, C) \<and>
             (0 \<le> fst tl' \<and> 0 \<le> snd tl' \<and> 0 \<le> height \<and> 0 \<le> width \<longrightarrow>
                (\<forall>y < nat height. \<forall>x < nat width. \<forall>c < C.
                   pixel cp out y x c = pixel cp img (nat (fst tl') + y) (nat (snd tl') + x) c))"
proof (cases "crop img tl' height width cp")
  case (Inl e)
  then show ?thesis by simp
next
  case (Inr out)
  then show ?thesis
    using crop_layout(1)[OF wf s Inr] crop_layout(2)[OF wf s Inr] by simp
qed

lemma resize_layout_case:
  assumes w: "library_shapes L" and s: "shape img = layout_shape cp (H, W, C)"
  shows "case resize L img sz n aa cp of
           Inl e \<Rightarrow> True
         | Inr out \<Rightarrow>
             (\<exists>rows cols. output_shape_of (to_canonical cp img) sz = Inr (rows, cols, int C) \<and>
                shape out = layout_shape cp (nat rows, nat cols, C))"
proof (cases "resize L img sz n aa cp")
  case (Inl e)
  then show ?thesis by simp
next
  case (Inr out)
  then show ?thesis using resize_layout[OF w s Inr] by simp
qed

lemma rescale_case: "case rescale L img sc n aa cp of Inl e \<Rightarrow> True | Inr out \<Rightarrow> False"
  using rescale_never_returns[of L img sc n aa cp] by auto

lemma crop_canonical_last:
  "crop img tl' height width cp =
     map_sum id (from_canonical cp) (crop (to_canonical cp img) tl' height width ''last'')"
  by (simp add: crop_def Let_def to_canonical_def from_canonical_def)

lemma rotate_canonical:
  "rotate_img L img angle reshape n cp =
     map_sum id (from_canonical cp)
       (ndi_rotate L (to_canonical cp img) (rad2deg L angle) reshape n)"
  by (simp add: rotate_img_def Let_def to_canonical_def from_canonical_def split: sum.splits)

lemma shear_canonical:
  "shear L img angle n cp =
     (case matrix_inverse L (affine L None None (Some angle) None) of
        Inl e \<Rightarrow> Inl e
      | Inr t \<Rightarrow> map_sum id (from_canonical cp) (warp L (to_canonical cp img) t None n))"
  by (simp add: shear_def Let_def to_canonical_def from_canonical_def split: sum.splits)

lemma affine_transform_canonical:
  "affine_transform L img scales rotation shearing translate n cp =
     (case matrix_inverse L (affine L scales rotation shearing translate) of
        Inl e \<Rightarrow> Inl e
      | Inr t \<Rightarrow> map_sum id (from_canonical cp) (warp L (to_canonical cp img) t None n))"
  by (simp add: affine_transform_def Let_def to_canonical_def from_canonical_def split: sum.splits)

lemma zoom_canonical:
  "zoom L img tl' height width cp kwargs =
     map_sum id (from_canonical cp) (zoom L (to_canonical cp img) tl' height width ''last'' kwargs)"
  by (simp add: zoom_def Let_def to_canonical_def from_canonical_def split: sum.splits)

lemma stretch_canonical:
  "stretch L img angle n aa cp =
     map_sum id (from_canonical cp) (stretch L (to_canonical cp img) angle n aa ''last'')"
  by (simp add: stretch_def Let_def to_canonical_def from_canonical_def split: sum.splits)

text \<open>
  Claim C1. Every operation returns its result in the axis order of its input, for
  both layouts. The image has \<open>H\<close> rows, \<open>W\<close> columns and \<open>C\<close> channels in the layout
  \<open>channel_pos\<close>, and the library keeps to its documented shapes. Then, in the same
  layout \<open>channel_pos\<close>:
  \<^item> \<open>resize\<close> returns the requested rows and columns with \<open>C\<close> channels;
  \<^item> \<open>crop\<close> returns the rows and columns of the slice with \<open>C\<close> channels, and for a box
    with non-negative corner and extents its pixel at \<open>(y, x, c)\<close> is the pixel of the
    image at \<open>(top + y, left + x, c)\<close>;
  \<^item> \<open>hflip\<close> and \<open>vflip\<close> return \<open>H\<close> rows, \<open>W\<close> columns and \<open>C\<close> channels, with the
    pixel at \<open>(y, x, c)\<close> taken from \<open>(y, W - 1 - x, c)\<close> and \<open>(H - 1 - y, x, c)\<close>;
  \<^item> \<open>rotate\<close> returns \<open>C\<close> channels, and \<open>H\<close> rows and \<open>W\<close> columns with \<open>reshape=False\<close>;
  \<^item> \<open>shear\<close>, \<open>affine_transform\<close>, \<open>zoom\<close> and \<open>stretch\<close> return \<open>H\<close> rows, \<open>W\<close> columns
    and \<open>C\<close> channels;
  \<^item> each of these results is the result computed on the image in canonical layout
    (for \<open>rotate\<close>, \<open>shear\<close> and \<open>affine_transform\<close>: what the library returns for it),
    converted back to the layout \<open>channel_pos\<close>, and an error is passed on unchanged;
  \<^item> \<open>erase\<close> returns an array with the buffer, shape and strides of its argument;
  \<^item> \<open>normalise\<close>, which has no \<open>channel_pos\<close>, changes each sample where it stands;
  \<^item> \<open>rescale\<close> returns no image at all.
  So no operation hands a channels-last image to a channel-first caller, or the
  reverse.
\<close>

theorem layout_preserved:
  assumes lib: "library_shapes L"
    and wf: "wf_array img"
    and s: "shape img = layout_shape channel_pos (H, W, C)"
  shows
   "normalise fimg (Scalar mean) (Scalar std) =
      Inr (fimg\<lparr>elems := map (map (map (\<lambda>x. (x - mean) / std))) (elems fimg)\<rparr>) \<and>
    (case resize L img sz n aa channel_pos of
       Inl e \<Rightarrow> True
     | Inr out \<Rightarrow>
         (\<exists>rows cols. output_shape_of (to_canonical channel_pos img) sz = Inr (rows, cols, int C) \<and>
            shape out = layout_shape channel_pos (nat rows, nat cols, C))) \<and>
    resize L img sz n aa channel_pos =
      map_sum id (from_canonical channel_pos)
        (resize L (to_canonical channel_pos img) sz n aa ''last'') \<and>
    (case rescale L img sc n aa channel_pos of Inl e \<Rightarrow> True | Inr out \<Rightarrow> False) \<and>
    (case crop img tl' height width channel_pos of
       Inl e \<Rightarrow> True
     | Inr out \<Rightarrow>
         shape out = layout_shape channel_pos
           (slice_bound (fst tl' + height) H - slice_bound (fst tl') H,
            slice_bound (snd tl' + width) W - slice_bound (snd tl') W, C) \<and>
         (0 \<le> fst tl' \<and> 0 \<le> snd tl' \<and> 0 \<le> height \<and> 0 \<le> width \<longrightarrow>
            (\<forall>y < nat height. \<forall>x < nat width. \<forall>c < C.
               pixel channel_pos out y x c =
               pixel channel_pos img (nat (fst tl') + y) (nat (snd tl') + x) c))) \<and>
    crop img tl' height width channel_pos =
      map_sum id (from_canonical channel_pos)
        (crop (to_canonical channel_pos img) tl' height width ''last'') \<and>
    shape (hflip img channel_pos) = layout_shape channel_pos (H, W, C) \<and>
    (\<forall>y < H. \<forall>x < W. \<forall>c < C.
       pixel channel_pos (hflip img channel_pos) y x c = pixel channel_pos img y (W - Suc x) c) \<and>
    shape (vflip img channel_pos) = layout_shape channel_pos (H, W, C) \<and>
    (\<forall>y < H. \<forall>x < W. \<forall>c < C.
       pixel channel_pos (vflip img channel_pos) y x c = pixel channel_pos img (H - Suc y) x c) \<and>
    (case rotate_img L img angle reshape n channel_pos of
       Inl e \<Rightarrow> True
     | Inr out \<Rightarrow>
         (\<exists>rows cols. shape out = layout_shape channel_pos (rows, cols, C)) \<and>
         (\<not> reshape \<longrightarrow> shape out = layout_shape channel_pos (H, W, C))) \<and>
    rotate_img L img angle reshape n channel_pos =
      map_sum id (from_canonical channel_pos)
        (ndi_rotate L (to_canonical channel_pos img) (rad2deg L angle) reshape n) \<and>
    snd (erase h v tl' height width val channel_pos) = v \<and>
    (case shear L img angle n channel_pos of
       Inl e \<Rightarrow> True
     | Inr out \<Rightarrow> shape out = layout_shape channel_pos (H, W, C)) \<and>
    shear L img angle n channel_pos =
      (case matrix_inverse L (affine L None None (Some angle) None) of
         Inl e \<Rightarrow> Inl e
       | Inr t \<Rightarrow>
           map_sum id (from_canonical channel_pos)
             (warp L (to_canonical channel_pos img) t None n)) \<and>
    (case affine_transform L img scales rotation shearing translate n channel_pos of
       Inl e \<Rightarrow> True
     | Inr out \<Rightarrow> shape out = layout_shape channel_pos (H, W, C)) \<and>
    affine_transform L img scales rotation shearing translate n channel_pos =
      (case matrix_inverse L (affine L scales rotation shearing translate) of
         Inl e \<Rightarrow> Inl e
       | Inr t \<Rightarrow>
           map_sum id (from_canonical channel_pos)
             (warp L (to_canonical channel_pos img) t None n)) \<and>
    (case zoom L img tl' height width channel_pos kwargs of
       Inl e \<Rightarrow> True
     | Inr out \<Rightarrow> shape out = layout_shape channel_pos (H, W, C)) \<and>
    zoom L img tl' height width channel_pos kwargs =
      map_sum id (from_canonical channel_pos)
        (zoom L (to_canonical channel_pos img) tl' height width ''last'' kwargs) \<and>
    (case stretch L img angle n aa channel_pos of
       Inl e \<Rightarrow> True
     | Inr out \<Rightarrow> shape out = layout_shape channel_pos (H, W, C)) \<and>
    stretch L img angle n aa channel_pos =
      map_sum id (from_canonical channel_pos)
        (stretch L (to_canonical channel_pos img) angle n aa ''last'')"
proof -
  have hf: "\<forall>y < H. \<forall>x < W. \<forall>c < C.
       pixel channel_pos (hflip img channel_pos) y x c = pixel channel_pos img y (W - Suc x) c"
    using hflip_layout(2)[OF wf s] by blast
  have vf: "\<forall>y < H. \<forall>x < W. \<forall>c < C.
       pixel channel_pos (vflip img channel_pos) y x c = pixel channel_pos img (H - Suc y) x c"
    using vflip_layout(2)[OF wf s] by blast
  note facts =
    normalise_scalars resize_layout_case[OF lib s] resize_canonical rescale_case
    crop_layout_case[OF wf s] crop_canonical_last hflip_layout(1)[OF wf s] hf
    vflip_layout(1)[OF wf s] vf rotate_layout[OF lib s] rotate_canonical erase_returns_view
    shear_layout[OF lib s] shear_canonical affine_transform_layout[OF lib s]
    affine_transform_canonical zoom_layout[OF lib s] zoom_canonical stretch_layout[OF lib s]
    stretch_canonical
  show ?thesis
    by (intro conjI) (rule facts)+
qed


text \<open>The witness, on a 3-channel image of 2 rows and 4 columns in both layouts.\<close>

theorem layout_preserved_witness:
  "library_shapes toy_library \<and> wf_array (ramp 3 2 4) \<and>
   shape (ramp 3 2 4) = layout_shape ''first'' (2, 4, 3) \<and>
   shape (hflip (ramp 3 2 4) ''first'') = layout_shape ''first'' (2, 4, 3) \<and>
   layout_shape ''first'' (2, 4, 3) = (3, 2, 4) \<and>
   hflip (ramp 3 2 4) ''first'' =
     \<lparr>shape = (3, 2, 4),
      elems = [[[3, 2, 1, 0], [13, 12, 11, 10]],
               [[103, 102, 101, 100], [113, 112, 111, 110]],
               [[203, 202, 201, 200], [213, 212, 211, 210]]]\<rparr> \<and>
   (case resize toy_library (ramp 3 2 4) (SizeInt 2) 3 False ''first'' of
      Inl e \<Rightarrow> True
    | Inr out \<Rightarrow>
        (\<exists>rows cols.
           output_shape_of (to_canonical ''first'' (ramp 3 2 4)) (SizeInt 2 :: int size_arg) =
             Inr (rows, cols, int 3) \<and>
           shape out = layout_shape ''first'' (nat rows, nat cols, 3))) \<and>
   resize toy_library (ramp 3 2 4) (SizeInt 2) 3 False ''first'' =
     Inr \<lparr>shape = (3, 2, 2),
          elems = [[[0, 2], [10, 12]], [[100, 102], [110, 112]], [[200, 202], [210, 212]]]\<rparr> \<and>
   shape (ramp 2 4 3) = layout_shape ''last'' (2, 4, 3) \<and>
   shape (hflip (ramp 2 4 3) ''last'') = layout_shape ''last'' (2, 4, 3) \<and>
   layout_shape ''last'' (2, 4, 3) = (2, 4, 3)"
proof -
  have shl: "shape (ramp 2 4 3) = layout_shape ''last'' (2, 4, 3)"
    by (simp add: shape_ramp layout_shape_def)
  have lsl: "layout_shape ''last'' (2, 4, 3) = (2, 4, 3)"
    by (simp add: layout_shape_def)
  note instl = layout_preserved[OF toy_library_shapes wf_ramp shl]
  have hl: "shape (hflip (ramp 2 4 3) ''last'') = layout_shape ''last'' (2, 4, 3)"
    using instl[THEN conjunct2, THEN conjunct2, THEN conjunct2, THEN conjunct2, THEN conjunct2,
        THEN conjunct2, THEN conjunct1] .
  have sh: "shape (ramp 3 2 4) = layout_shape ''first'' (2, 4, 3)"
    by (simp add: shape_ramp layout_shape_def)
  have ls: "layout_shape ''first'' (2, 4, 3) = (3, 2, 4)"
    by (simp add: layout_shape_def)
  have hv: "hflip (ramp 3 2 4) ''first'' =
     \<lparr>shape = (3, 2, 4),
      elems = [[[3, 2, 1, 0], [13, 12, 11, 10]],
               [[103, 102, 101, 100], [113, 112, 111, 110]],
               [[203, 202, 201, 200], [213, 212, 211, 210]]]\<rparr>"
    by code_simp
  have rv: "resize toy_library (ramp 3 2 4) (SizeInt 2) 3 False ''first'' =
     Inr \<lparr>shape = (3, 2, 2),
          elems = [[[0, 2], [10, 12]], [[100, 102], [110, 112]], [[200, 202], [210, 212]]]\<rparr>"
    by code_simp
  note inst = layout_preserved[OF toy_library_shapes wf_ramp sh, where sz = "SizeInt 2"
      and n = 3 and aa = False]
  have h: "shape (hflip (ramp 3 2 4) ''first'') = layout_shape ''first'' (2, 4, 3)"
    using inst[THEN conjunct2, THEN conjunct2, THEN conjunct2, THEN conjunct2, THEN conjunct2,
        THEN conjunct2, THEN conjunct1] .
  have r: "case resize toy_library (ramp 3 2 4) (SizeInt 2) 3 False ''first'' of
      Inl e \<Rightarrow> True
    | Inr out \<Rightarrow>
        (\<exists>rows cols.
           output_shape_of (to_canonical ''first'' (ramp 3 2 4)) (SizeInt 2 :: int size_arg) =
             Inr (rows, cols, int 3) \<and>
           shape out = layout_shape ''first'' (nat rows, nat cols, 3))"
    using inst[THEN conjunct2, THEN conjunct1] .
  show ?thesis
    using toy_library_shapes wf_ramp sh ls hv rv h r shl hl lsl by (intro conjI)
qed

section \<open>normalise\<close>

lemma map2_upt:
  assumes "length ms = d"
  shows "map2 f (map g [0..<d]) ms = map (\<lambda>k. f (g k) (ms ! k)) [0..<d]"
  using assms by (intro nth_equalityI) simp_all

lemma broadcast_tabulate3:
  assumes "per_channel v d2"
  shows "broadcast f \<lparr>shape = (d0, d1, d2), elems = tabulate3 d0 d1 d2 g\<rparr> v =
         Inr \<lparr>shape = (d0, d1, d2), elems = tabulate3 d0 d1 d2 (\<lambda>i j k. f (g i j k) (operand_at v k))\<rparr>"
proof (cases v)
  case (Scalar m)
  then show ?thesis
    by (simp add: broadcast_def tabulate3_def operand_at_def comp_def)
next
  case (Vector ms)
  then have l: "length ms = d2" using assms by (simp add: per_channel_def)
  show ?thesis
    by (simp add: broadcast_def Vector l tabulate3_def operand_at_def comp_def map2_upt[OF l])
qed

text \<open>
  Claim C8. For every image and every \<open>mean\<close> and \<open>std\<close> that are a scalar or a
  per-channel vector, \<open>normalise\<close> returns the array of the same shape whose element at
  \<open>[i, j, k]\<close> is \<open>(img[i, j, k] - mean[k]) / std[k]\<close> (the scalar itself for a scalar
  operand); with \<open>mean = 0\<close> and \<open>std = 1\<close> it returns the image. The samples are
  elements of a division ring, so the arithmetic is exact; \<open>std\<close> has no zero entry,
  since division by zero is outside this model. NumPy broadcasts a vector along the
  last axis, so a per-channel vector is one for an image in channels-last layout.
\<close>

theorem normalise_elementwise:
  fixes img :: "'a::division_ring ndarray"
  assumes wf: "wf_array img" and s: "shape img = (d0, d1, d2)"
    and pc: "per_channel mean d2" "per_channel std d2"
    and nz: "nonzero std"
  shows "normalise img mean std =
           Inr \<lparr>shape = (d0, d1, d2),
                elems = tabulate3 d0 d1 d2
                  (\<lambda>i j k. (elems img ! i ! j ! k - operand_at mean k) / operand_at std k)\<rparr> \<and>
         normalise img (Scalar 0) (Scalar 1) = Inr img"
proof
  have img: "img = \<lparr>shape = (d0, d1, d2), elems = tabulate3 d0 d1 d2 (\<lambda>i j k. elems img ! i ! j ! k)\<rparr>"
    by (rule wf_array_eqI[OF wf s])
  have "normalise \<lparr>shape = (d0, d1, d2), elems = tabulate3 d0 d1 d2 (\<lambda>i j k. elems img ! i ! j ! k)\<rparr> mean std =
           Inr \<lparr>shape = (d0, d1, d2),
                elems = tabulate3 d0 d1 d2
                  (\<lambda>i j k. (elems img ! i ! j ! k - operand_at mean k) / operand_at std k)\<rparr>"
    by (simp add: normalise_def broadcast_tabulate3[OF pc(1)] broadcast_tabulate3[OF pc(2)])
  then show "normalise img mean std =
           Inr \<lparr>shape = (d0, d1, d2),
                elems = tabulate3 d0 d1 d2
                  (\<lambda>i j k. (elems img ! i ! j ! k - operand_at mean k) / operand_at std k)\<rparr>"
    using img by simp
next
  show "normalise img (Scalar 0) (Scalar 1) = Inr img"
    by (simp add: normalise_def broadcast_def)
qed

theorem normalise_elementwise_witness:
  "wf_array sample_image \<and> shape sample_image = (1, 2, 3) \<and>
   per_channel (Vector [1, 2, 3 :: rat]) 3 \<and> per_channel (Scalar (2 :: rat)) 3 \<and>
   nonzero (Scalar (2 :: rat)) \<and>
   normalise sample_image (Vector [1, 2, 3]) (Scalar 2) =
     Inr \<lparr>shape = (1, 2, 3), elems = [[[0, 0, 0], [3 / 2, 3 / 2, 3 / 2]]]\<rparr> \<and>
   normalise sample_image (Scalar 0) (Scalar 1) = Inr sample_image"
proof -
  have h: "wf_array sample_image" "shape sample_image = (1, 2, 3)"
    "per_channel (Vector [1, 2, 3 :: rat]) 3" "per_channel (Scalar (2 :: rat)) 3"
    "nonzero (Scalar (2 :: rat))"
    by (simp_all add: sample_image_def wf_array_def per_channel_def nonzero_def)
  have t: "tabulate3 1 2 3
             (\<lambda>i j k. (elems sample_image ! i ! j ! k - operand_at (Vector [1, 2, 3]) k) /
                       operand_at (Scalar 2) k) =
           [[[0, 0, 0], [3 / 2, 3 / 2, 3 / 2]]]"
    by (simp add: tabulate3_def sample_image_def operand_at_def upt_rec[of 0] upt_rec[of 1] upt_rec[of 2]
        numeral_2_eq_2 numeral_3_eq_3)
  show ?thesis
    using normalise_elementwise[OF h] h t by simp
qed

section \<open>erase\<close>

lemma length_fold_update: "length (fold (\<lambda>p b. b[p := val]) ps b) = length b"
  by (induction ps arbitrary: b) simp_all

lemma nth_fold_update:
  "p < length b \<Longrightarrow> fold (\<lambda>q b. b[q := val]) ps b ! p = (if p \<in> set ps then val else b ! p)"
proof (induction ps arbitrary: b)
  case Nil
  then show ?case by simp
next
  case (Cons q qs)
  have "fold (\<lambda>q b. b[q := val]) (q # qs) b ! p = fold (\<lambda>q b. b[q := val]) qs (b[q := val]) ! p"
    by simp
  also have "\<dots> = (if p \<in> set qs then val else b[q := val] ! p)"
    using Cons.prems by (simp add: Cons.IH)
  also have "\<dots> = (if p \<in> set (q # qs) then val else b ! p)"
    using Cons.prems by (auto simp: nth_list_update)
  finally show ?case .
qed

lemma mixed_radix_inj:
  fixes i j k i' j' k' B C :: nat
  assumes "j < B" "j' < B" "k < C" "k' < C"
    and eq: "i * (B * C) + j * C + k = i' * (B * C) + j' * C + k'"
  shows "i = i' \<and> j = j' \<and> k = k'"
proof -
  have e: "(i * B + j) * C + k = (i' * B + j') * C + k'"
    using eq by (simp add: algebra_simps)
  have "((i * B + j) * C + k) mod C = k" "((i' * B + j') * C + k') mod C = k'"
    using assms by simp_all
  then have k: "k = k'" using e by simp
  have "((i * B + j) * C + k) div C = i * B + j" "((i' * B + j') * C + k') div C = i' * B + j'"
    using assms by simp_all
  then have e2: "i * B + j = i' * B + j'" using e by simp
  have "(i * B + j) mod B = j" "(i' * B + j') mod B = j'"
    using assms by simp_all
  then have j: "j = j'" using e2 by simp
  have "(i * B + j) div B = i" "(i' * B + j') div B = i'"
    using assms by simp_all
  then have "i = i'" using e2 by simp
  then show ?thesis using j k by simp
qed

lemma mixed_radix_bound:
  fixes i j k A B C :: nat
  assumes "i < A" "j < B" "k < C"
  shows "i * (B * C) + j * C + k < A * B * C"
proof -
  have "j * C + k < B * C"
  proof -
    have "j * C + k < j * C + C" using assms by simp
    also have "\<dots> = (j + 1) * C" by simp
    also have "\<dots> \<le> B * C" using assms by (intro mult_le_mono1) simp
    finally show ?thesis .
  qed
  then have "i * (B * C) + j * C + k < i * (B * C) + B * C" by simp
  also have "\<dots> = (i + 1) * (B * C)" by simp
  also have "\<dots> \<le> A * (B * C)" using assms by (intro mult_le_mono1) simp
  finally show ?thesis by (simp add: mult.assoc)
qed

lemma set_box_offsets:
  assumes "vshape v = (d0, d1, d2)"
  shows "set (box_offsets v r0 r1 c0 c1) =
     {offset v i j k | i j k.
        slice_bound r0 d0 \<le> i \<and> i < slice_bound r1 d0 \<and>
        slice_bound c0 d1 \<le> j \<and> j < slice_bound c1 d1 \<and> k < d2}"
  (is "?A = ?B")
proof (intro set_eqI iffI)
  fix x assume "x \<in> ?A"
  then obtain i j k where "x = offset v i j k" "slice_bound r0 d0 \<le> i" "i < slice_bound r1 d0"
    "slice_bound c0 d1 \<le> j" "j < slice_bound c1 d1" "k < d2"
    by (auto simp: box_offsets_def assms)
  then show "x \<in> ?B" by blast
next
  fix x assume "x \<in> ?B"
  then obtain i j k where x: "x = offset v i j k"
    and i: "i \<in> {slice_bound r0 d0..<slice_bound r1 d0}"
    and j: "j \<in> {slice_bound c0 d1..<slice_bound c1 d1}"
    and k: "k \<in> {0..<d2}"
    by auto
  have "x \<in> offset v i j ` {0..<d2}" using x k by blast
  then have "x \<in> (\<Union>i\<in>{slice_bound r0 d0..<slice_bound r1 d0}.
                  \<Union>j\<in>{slice_bound c0 d1..<slice_bound c1 d1}. offset v i j ` {0..<d2})"
    using i j by blast
  then show "x \<in> ?A"
    by (simp add: box_offsets_def assms)
qed

lemma setitem_other_buffer:
  "b \<noteq> buffer v \<Longrightarrow> setitem_rows_cols h v r0 r1 c0 c1 val b = h b"
  by (simp add: setitem_rows_cols_def)

lemma setitem_length:
  "length (setitem_rows_cols h v r0 r1 c0 c1 val b) = length (h b)"
  by (simp add: setitem_rows_cols_def length_fold_update)

text \<open>Channels-last: the assignment is to the caller's view itself.\<close>

lemma setitem_last:
  assumes cc: "c_contiguous h v" and s: "vshape v = (d0, d1, d2)"
    and i: "i < d0" "j < d1" "k < d2"
  shows "getitem (setitem_rows_cols h v r0 r1 c0 c1 val) v i j k =
     (if slice_bound r0 d0 \<le> i \<and> i < slice_bound r1 d0 \<and>
         slice_bound c0 d1 \<le> j \<and> j < slice_bound c1 d1
      then val else getitem h v i j k)"
proof -
  have st: "strides v = (d1 * d2, d2, 1)" and len: "length (h (buffer v)) = d0 * d1 * d2"
    using cc s by (simp_all add: c_contiguous_def)
  have off: "offset v a b c = a * (d1 * d2) + b * d2 + c" for a b c
    by (simp add: offset_def st)
  have inb: "offset v i j k < length (h (buffer v))"
    using mixed_radix_bound[OF i] by (simp add: off len)
  have mem: "offset v i j k \<in> set (box_offsets v r0 r1 c0 c1) \<longleftrightarrow>
      slice_bound r0 d0 \<le> i \<and> i < slice_bound r1 d0 \<and> slice_bound c0 d1 \<le> j \<and> j < slice_bound c1 d1"
    (is "?L \<longleftrightarrow> ?R")
  proof
    assume ?L
    then obtain a b c where abc: "offset v a b c = offset v i j k"
      "slice_bound r0 d0 \<le> a" "a < slice_bound r1 d0" "slice_bound c0 d1 \<le> b"
      "b < slice_bound c1 d1" "c < d2"
      unfolding set_box_offsets[OF s] by auto
    have "b < d1" using abc(5) slice_bound_le[of c1 d1] by simp
    then have "a = i \<and> b = j \<and> c = k"
      using mixed_radix_inj[of b d1 j c d2 k a i] abc(1,6) i by (simp add: off)
    then show ?R using abc by simp
  next
    assume ?R
    then show ?L unfolding set_box_offsets[OF s] using i by auto
  qed
  show ?thesis
    using inb mem by (simp add: getitem_def setitem_rows_cols_def nth_fold_update)
qed

text \<open>Channel-first: the assignment is to the moved view, rows and columns are axes 1 and 2
  of the caller's view.\<close>

lemma setitem_first:
  assumes cc: "c_contiguous h v" and s: "vshape v = (d0, d1, d2)"
    and i: "i < d0" "j < d1" "k < d2"
  shows "getitem (setitem_rows_cols h (view_moveaxis_0_last v) r0 r1 c0 c1 val) v i j k =
     (if slice_bound r0 d1 \<le> j \<and> j < slice_bound r1 d1 \<and>
         slice_bound c0 d2 \<le> k \<and> k < slice_bound c1 d2
      then val else getitem h v i j k)"
proof -
  let ?m = "view_moveaxis_0_last v"
  have st: "strides v = (d1 * d2, d2, 1)" and len: "length (h (buffer v)) = d0 * d1 * d2"
    using cc s by (simp_all add: c_contiguous_def)
  have ms: "vshape ?m = (d1, d2, d0)" and mb: "buffer ?m = buffer v"
    by (simp_all add: view_moveaxis_0_last_def s st)
  have off: "offset v a b c = a * (d1 * d2) + b * d2 + c" for a b c
    by (simp add: offset_def st)
  have moff: "offset ?m b c a = offset v a b c" for a b c
    by (simp add: offset_def view_moveaxis_0_last_def s st)
  have inb: "offset v i j k < length (h (buffer v))"
    using mixed_radix_bound[OF i] by (simp add: off len)
  have mem: "offset v i j k \<in> set (box_offsets ?m r0 r1 c0 c1) \<longleftrightarrow>
      slice_bound r0 d1 \<le> j \<and> j < slice_bound r1 d1 \<and> slice_bound c0 d2 \<le> k \<and> k < slice_bound c1 d2"
    (is "?L \<longleftrightarrow> ?R")
  proof
    assume ?L
    then obtain a b c where abc: "offset ?m b c a = offset v i j k"
      "slice_bound r0 d1 \<le> b" "b < slice_bound r1 d1" "slice_bound c0 d2 \<le> c"
      "c < slice_bound c1 d2" "a < d0"
      unfolding set_box_offsets[OF ms] by auto
    have "b < d1" "c < d2"
      using abc(3,5) slice_bound_le[of r1 d1] slice_bound_le[of c1 d2] by simp_all
    then have "a = i \<and> b = j \<and> c = k"
      using mixed_radix_inj[of b d1 j c d2 k a i] abc(1) i by (simp add: moff off)
    then show ?R using abc by simp
  next
    assume ?R
    then have "\<exists>b c a. offset v i j k = offset ?m b c a \<and>
        slice_bound r0 d1 \<le> b \<and> b < slice_bound r1 d1 \<and>
        slice_bound c0 d2 \<le> c \<and> c < slice_bound c1 d2 \<and> a < d0"
      using i moff by (intro exI[of _ j] exI[of _ k] exI[of _ i]) simp
    then show ?L unfolding set_box_offsets[OF ms] by auto
  qed
  show ?thesis
    using inb mem by (simp add: getitem_def setitem_rows_cols_def nth_fold_update mb)
qed


lemma slice_range_box:
  assumes "0 \<le> t" "0 \<le> e" "y < n"
  shows "(slice_bound t n \<le> y \<and> y < slice_bound (t + e) n) = (t \<le> int y \<and> int y < t + e)"
  using assms by (auto simp: slice_bound_def Let_def)

text \<open>
  Claim C10. \<open>erase\<close> writes \<open>val\<close> into the caller's buffer: after the call, the
  caller's image has \<open>val\<close> at every position of the box
  \<open>[tl[0]:tl[0]+height, tl[1]:tl[1]+width]\<close> (rows and columns in the caller's
  layout, every channel) and its old sample everywhere else; no other buffer changes
  and the buffer keeps its length. The array returned has the buffer, shape and
  strides of the caller's image. Nothing requires the box to lie within the image: the
  part of the box outside is ignored, and \<open>erase\<close> has no error result. The caller's
  image is C-contiguous, the box has a non-negative corner and non-negative extents.
  The witness erases a box that reaches past the image.
\<close>

theorem erase_in_place:
  assumes cc: "c_contiguous h img" and s: "vshape img = (d0, d1, d2)"
    and box: "0 \<le> fst tl'" "0 \<le> snd tl'" "0 \<le> height" "0 \<le> width"
    and i: "i < d0" "j < d1" "k < d2"
  shows "snd (erase h img tl' height width val channel_pos) = img \<and>
         (\<forall>b. b \<noteq> buffer img \<longrightarrow> fst (erase h img tl' height width val channel_pos) b = h b) \<and>
         length (fst (erase h img tl' height width val channel_pos) (buffer img)) =
           length (h (buffer img)) \<and>
         getitem (fst (erase h img tl' height width val channel_pos)) img i j k =
           (let (y, x) = (if channel_pos = ''first'' then (j, k) else (i, j))
            in if fst tl' \<le> int y \<and> int y < fst tl' + height \<and>
                  snd tl' \<le> int x \<and> int x < snd tl' + width
               then val else getitem h img i j k)"
proof (cases "channel_pos = ''first''")
  case True
  have mb: "buffer (view_moveaxis_0_last img) = buffer img"
    by (cases "vshape img"; cases "strides img") (simp add: view_moveaxis_0_last_def)
  have e: "fst (erase h img tl' height width val channel_pos) =
      setitem_rows_cols h (view_moveaxis_0_last img) (fst tl') (fst tl' + height)
        (snd tl') (snd tl' + width) val"
    using True by (simp add: erase_def Let_def)
  have "(slice_bound (fst tl') d1 \<le> j \<and> j < slice_bound (fst tl' + height) d1 \<and>
         slice_bound (snd tl') d2 \<le> k \<and> k < slice_bound (snd tl' + width) d2) =
        (fst tl' \<le> int j \<and> int j < fst tl' + height \<and>
         snd tl' \<le> int k \<and> int k < snd tl' + width)"
    using slice_range_box[OF box(1,3) i(2)] slice_range_box[OF box(2,4) i(3)] by blast
  then have g: "getitem (fst (erase h img tl' height width val channel_pos)) img i j k =
      (if fst tl' \<le> int j \<and> int j < fst tl' + height \<and>
          snd tl' \<le> int k \<and> int k < snd tl' + width
       then val else getitem h img i j k)"
    unfolding e setitem_first[OF cc s i] by simp
  have c1: "snd (erase h img tl' height width val channel_pos) = img"
    by (rule erase_returns_view)
  have c2: "\<forall>b. b \<noteq> buffer img \<longrightarrow> fst (erase h img tl' height width val channel_pos) b = h b"
    unfolding e using mb by (simp add: setitem_other_buffer)
  have c3: "length (fst (erase h img tl' height width val channel_pos) (buffer img)) =
      length (h (buffer img))"
    unfolding e by (simp add: setitem_length)
  show ?thesis
    using c1 c2 c3 g True by simp
next
  case False
  have e: "fst (erase h img tl' height width val channel_pos) =
      setitem_rows_cols h img (fst tl') (fst tl' + height) (snd tl') (snd tl' + width) val"
    using False by (simp add: erase_def Let_def)
  have "(slice_bound (fst tl') d0 \<le> i \<and> i < slice_bound (fst tl' + height) d0 \<and>
         slice_bound (snd tl') d1 \<le> j \<and> j < slice_bound (snd tl' + width) d1) =
        (fst tl' \<le> int i \<and> int i < fst tl' + height \<and>
         snd tl' \<le> int j \<and> int j < snd tl' + width)"
    using slice_range_box[OF box(1,3) i(1)] slice_range_box[OF box(2,4) i(2)] by blast
  then have g: "getitem (fst (erase h img tl' height width val channel_pos)) img i j k =
      (if fst tl' \<le> int i \<and> int i < fst tl' + height \<and>
          snd tl' \<le> int j \<and> int j < snd tl' + width
       then val else getitem h img i j k)"
    unfolding e setitem_last[OF cc s i] by simp
  have c1: "snd (erase h img tl' height width val channel_pos) = img"
    by (rule erase_returns_view)
  have c2: "\<forall>b. b \<noteq> buffer img \<longrightarrow> fst (erase h img tl' height width val channel_pos) b = h b"
    unfolding e by (simp add: setitem_other_buffer)
  have c3: "length (fst (erase h img tl' height width val channel_pos) (buffer img)) =
      length (h (buffer img))"
    unfolding e by (simp add: setitem_length)
  show ?thesis
    using c1 c2 c3 g False by simp
qed


theorem erase_in_place_witness:
  "c_contiguous heap0 view0 \<and> vshape view0 = (2, 2, 3) \<and>
   snd (erase heap0 view0 (1, 1) 5 5 99 ''first'') = view0 \<and>
   fst (erase heap0 view0 (1, 1) 5 5 99 ''first'') 0 = [0, 1, 2, 3, 99, 99, 6, 7, 8, 9, 99, 99] \<and>
   getitem (fst (erase heap0 view0 (1, 1) 5 5 99 ''first'')) view0 1 1 2 = 99 \<and>
   getitem heap0 view0 1 1 2 = 11"
proof -
  have h: "c_contiguous heap0 view0" "vshape view0 = (2, 2, 3)"
    by (simp_all add: c_contiguous_def heap0_def view0_def)
  have b: "fst (erase heap0 view0 (1, 1) 5 5 99 ''first'') 0 = [0, 1, 2, 3, 99, 99, 6, 7, 8, 9, 99, 99]"
    by code_simp
  have g: "getitem heap0 view0 1 1 2 = 11"
    by (simp add: getitem_def heap0_def view0_def offset_def)
  show ?thesis
    using erase_in_place[OF h, where tl' = "(1, 1)" and height = 5 and width = 5 and i = 1
        and j = 1 and k = 2 and val = 99 and channel_pos = "''first''"] h b g
    by simp
qed

text \<open>The views of the heap model show the arrays of the value model.\<close>

lemma read_view_moveaxis_0_last:
  "read_view h (view_moveaxis_0_last v) = moveaxis_0_last (read_view h v)"
proof -
  obtain d0 d1 d2 where s: "vshape v = (d0, d1, d2)" by (cases "vshape v") auto
  obtain s0 s1 s2 where st: "strides v = (s0, s1, s2)" by (cases "strides v") auto
  show ?thesis
    by (auto simp: read_view_def view_moveaxis_0_last_def moveaxis_0_last_def s st getitem_def
        offset_def add.commute add.left_commute intro!: tabulate3_cong)
qed

lemma read_view_moveaxis_last_0:
  "read_view h (view_moveaxis_last_0 v) = moveaxis_last_0 (read_view h v)"
proof -
  obtain d0 d1 d2 where s: "vshape v = (d0, d1, d2)" by (cases "vshape v") auto
  obtain s0 s1 s2 where st: "strides v = (s0, s1, s2)" by (cases "strides v") auto
  show ?thesis
    by (auto simp: read_view_def view_moveaxis_last_0_def moveaxis_last_0_def s st getitem_def
        offset_def add.commute add.left_commute intro!: tabulate3_cong)
qed

end
